theory Spec2Isabelle
  imports Main "HOL-Library.AList"
begin

section \<open>JavaScript values\<close>

text \<open>
  \<^verbatim>\<open>DatabaseService\<close> handles values of type \<^verbatim>\<open>any\<close>: rows, filter values, the parameters
  of a raw query, the parameter bag of a cache key. They are modelled as one datatype of
  JavaScript values. A number is an integer here (limits, offsets, time-to-live in
  seconds, epoch milliseconds), of a size that JavaScript represents exactly and prints
  in full; fractional numbers, NaN and the infinities are outside the model. A string
  is a list of characters with code points below 256. The field list of \<open>JObj\<close> is the
  object's own properties in enumeration order: JavaScript enumerates the names that are
  array indices first, in ascending order, and then the other names in the order in
  which the caller wrote them. An object has each name once.
\<close>

datatype json =
    JUndefined
  | JNull
  | JBool bool
  | JNum int
  | JStr string
  | JArr "json list"
  | JObj "(string \<times> json) list"

text \<open>
  Reading a property \<^verbatim>\<open>o.k\<close>: the value stored under the name, \<^verbatim>\<open>undefined\<close> when the
  object has no such property. The names that the service reads from a filter value
  (\<^verbatim>\<open>gte\<close>, \<^verbatim>\<open>lte\<close>, \<^verbatim>\<open>gt\<close>, \<^verbatim>\<open>lt\<close>, \<^verbatim>\<open>like\<close>, \<^verbatim>\<open>ilike\<close>) are no built-in properties of any value.
\<close>

definition property :: "(string \<times> json) list \<Rightarrow> string \<Rightarrow> json" where
  "property fs k = (case map_of fs k of Some v \<Rightarrow> v | None \<Rightarrow> JUndefined)"

fun member_of :: "json \<Rightarrow> string \<Rightarrow> json" where
  "member_of (JObj fs) k = property fs k"
| "member_of v k = JUndefined"

subsection \<open>Decimal digits and joining\<close>

definition digit_char :: "nat \<Rightarrow> char" where
  "digit_char n = char_of (48 + n)"

text \<open>The decimal digits of a natural number, most significant first.\<close>

fun decimal :: "nat \<Rightarrow> string" where
  "decimal n = (if 10 \<le> n then decimal (n div 10) else []) @ [digit_char (n mod 10)]"

declare decimal.simps [simp del]

text \<open>How JavaScript prints an integral number, in a template literal and in JSON.\<close>

definition number_to_string :: "int \<Rightarrow> string" where
  "number_to_string i = (if 0 \<le> i then decimal (nat i) else CHR ''-'' # decimal (nat (- i)))"

text \<open>\<^verbatim>\<open>Array.prototype.join\<close> on strings.\<close>

fun join :: "string \<Rightarrow> string list \<Rightarrow> string" where
  "join sep [] = []"
| "join sep [x] = x"
| "join sep (x # y # ys) = x @ sep @ join sep (y # ys)"

text \<open>
  \<^verbatim>\<open>Object.entries\<close>: the own enumerable properties of an object in order; the indexed
  elements of an array or of a string; nothing for a number or a boolean.
\<close>

fun object_entries :: "json \<Rightarrow> (string \<times> json) list" where
  "object_entries (JObj fs) = fs"
| "object_entries (JArr xs) = zip (map decimal [0..<length xs]) xs"
| "object_entries (JStr s) = zip (map decimal [0..<length s]) (map (\<lambda>c. JStr [c]) s)"
| "object_entries v = []"

subsection \<open>\<^verbatim>\<open>JSON.stringify\<close>\<close>

definition hex_digit :: "nat \<Rightarrow> char" where
  "hex_digit n = (if n < 10 then char_of (48 + n) else char_of (87 + n))"

text \<open>
  The quoting of a string: the double quote and the backslash are escaped, the control
  characters below U+0020 get their short escape or \<^verbatim>\<open>\u00xx\<close>, every other character
  stands for itself.
\<close>

definition escape_char :: "char \<Rightarrow> string" where
  "escape_char c =
     (if c = CHR 0x22 then [CHR 0x5C, CHR 0x22]
      else if c = CHR 0x5C then [CHR 0x5C, CHR 0x5C]
      else if c = CHR 0x08 then [CHR 0x5C, CHR ''b'']
      else if c = CHR 0x0C then [CHR 0x5C, CHR ''f'']
      else if c = CHR 0x0A then [CHR 0x5C, CHR ''n'']
      else if c = CHR 0x0D then [CHR 0x5C, CHR ''r'']
      else if c = CHR 0x09 then [CHR 0x5C, CHR ''t'']
      else if (of_char c :: nat) < 32
        then [CHR 0x5C, CHR ''u'', CHR ''0'', CHR ''0'',
              hex_digit (of_char c div 16), hex_digit (of_char c mod 16)]
      else [c])"

definition quote :: "string \<Rightarrow> string" where
  "quote s = [CHR 0x22] @ concat (map escape_char s) @ [CHR 0x22]"

text \<open>
  Serialisation of a value inside a structure: \<^verbatim>\<open>undefined\<close> prints as \<^verbatim>\<open>null\<close> in an array,
  and a property whose value is \<^verbatim>\<open>undefined\<close> is left out of an object. The properties
  are written in the object's own order: nothing sorts them.
\<close>

fun stringify :: "json \<Rightarrow> string" where
  "stringify JUndefined = ''null''"
| "stringify JNull = ''null''"
| "stringify (JBool b) = (if b then ''true'' else ''false'')"
| "stringify (JNum n) = number_to_string n"
| "stringify (JStr s) = quote s"
| "stringify (JArr xs) = ''['' @ join '','' (map stringify xs) @ '']''"
| "stringify (JObj fs) =
     ''{'' @ join '','' (map (\<lambda>(k, v). quote k @ '':'' @ stringify v)
                            (filter (\<lambda>(k, v). v \<noteq> JUndefined) fs)) @ ''}''"

text \<open>
  \<^verbatim>\<open>${JSON.stringify(params)}\<close> in a template literal: at top level \<^verbatim>\<open>JSON.stringify(undefined)\<close>
  is \<^verbatim>\<open>undefined\<close>, which the template prints as the word.
\<close>

definition JSON_stringify :: "json \<Rightarrow> string" where
  "JSON_stringify v = (if v = JUndefined then ''undefined'' else stringify v)"

subsection \<open>\<^verbatim>\<open>Buffer.from(key).toString('base64')\<close>\<close>

text \<open>UTF-8 of code points below 256: one byte below 128, two bytes from there on.\<close>

definition utf8_bytes :: "string \<Rightarrow> nat list" where
  "utf8_bytes s =
     concat (map (\<lambda>c. if (of_char c :: nat) < 128 then [of_char c]
                       else [192 + of_char c div 64, 128 + of_char c mod 64]) s)"

definition base64_alphabet :: string where
  "base64_alphabet = ''ABCDEFGHIJKLMNOPQRSTUVWXYZabcdefghijklmnopqrstuvwxyz0123456789+/''"

definition base64_char :: "nat \<Rightarrow> char" where
  "base64_char n = base64_alphabet ! n"

fun base64 :: "nat list \<Rightarrow> string" where
  "base64 [] = []"
| "base64 [a] = [base64_char (a div 4), base64_char ((a mod 4) * 16), CHR ''='', CHR ''='']"
| "base64 [a, b] =
     [base64_char (a div 4), base64_char ((a mod 4) * 16 + b div 16),
      base64_char ((b mod 16) * 4), CHR ''='']"
| "base64 (a # b # c # rest) =
     [base64_char (a div 4), base64_char ((a mod 4) * 16 + b div 16),
      base64_char ((b mod 16) * 4 + c div 64), base64_char (c mod 64)] @ base64 rest"


subsection \<open>Thrown values\<close>

text \<open>
  What a \<^verbatim>\<open>catch\<close> clause receives: an instance of \<^verbatim>\<open>Error\<close> (a \<^verbatim>\<open>TypeError\<close> and a
  \<^verbatim>\<open>RangeError\<close> are such) with its message, or any other value, since JavaScript lets
  \<^verbatim>\<open>throw\<close> and a rejected promise carry any value.
\<close>

datatype thrown = ErrorInstance string | NonError json

subsection \<open>\<^verbatim>\<open>new Date(ms).toISOString()\<close>\<close>

text \<open>
  A time value is a number of milliseconds since the epoch, 1 January 1970 UTC. A
  \<^verbatim>\<open>Date\<close> holds a time value of at most 8.64e15 in absolute value, 100 million days on
  either side of the epoch; built from a number beyond that it is an invalid date.
\<close>

definition valid_time_value :: "int \<Rightarrow> bool" where
  "valid_time_value ms = (\<bar>ms\<bar> \<le> 8640000000000000)"

text \<open>
  The last \<open>width\<close> decimal digits of a number that is not negative, most significant
  first, with leading zeros. The fields of a date fit their widths: two digits for
  month, day, hour, minute and second, three for the milliseconds, four or six for the
  year.
\<close>

definition digits :: "nat \<Rightarrow> int \<Rightarrow> string" where
  "digits width n = map (\<lambda>i. digit_char (nat (n div 10 ^ i mod 10))) (rev [0..<width])"

text \<open>
  Year, month and day of the proleptic Gregorian calendar for a number of days since
  the epoch. The count runs in eras of 400 years (146097 days) that start on 1 March,
  so that the leap day is the last day of a year of the era.
\<close>

definition civil_from_days :: "int \<Rightarrow> int \<times> int \<times> int" where
  "civil_from_days days =
     (let z = days + 719468;
          era = z div 146097;
          doe = z mod 146097;
          yoe = (doe - doe div 1460 + doe div 36524 - doe div 146096) div 365;
          doy = doe - (365 * yoe + yoe div 4 - yoe div 100);
          mp = (5 * doy + 2) div 153;
          d = doy - (153 * mp + 2) div 5 + 1;
          m = (if mp < 10 then mp + 3 else mp - 9);
          y = yoe + era * 400 + (if m \<le> 2 then 1 else 0)
      in (y, m, d))"

text \<open>Four digits for the years 0 to 9999, a sign and six digits for the others.\<close>

definition year_string :: "int \<Rightarrow> string" where
  "year_string y =
     (if 0 \<le> y \<and> y \<le> 9999 then digits 4 y
      else (if y < 0 then CHR ''-'' else CHR ''+'') # digits 6 \<bar>y\<bar>)"

text \<open>The rendering \<^verbatim>\<open>YYYY-MM-DDTHH:mm:ss.sssZ\<close> of a time value.\<close>

definition iso_string :: "int \<Rightarrow> string" where
  "iso_string ms =
     (let t = ms mod 86400000 in
      case civil_from_days (ms div 86400000) of (y, m, d) \<Rightarrow>
        year_string y @ ''-'' @ digits 2 m @ ''-'' @ digits 2 d @ ''T'' @
        digits 2 (t div 3600000) @ '':'' @
        digits 2 (t div 60000 mod 60) @ '':'' @
        digits 2 (t div 1000 mod 60) @ ''.'' @
        digits 3 (t mod 1000) @ ''Z'')"

text \<open>
  \<^verbatim>\<open>toISOString\<close> throws a \<^verbatim>\<open>RangeError\<close> on an invalid date. The result is the thrown
  value on the left, the string on the right.
\<close>

definition Date_toISOString :: "int \<Rightarrow> thrown + string" where
  "Date_toISOString ms =
     (if valid_time_value ms then Inr (iso_string ms)
      else Inl (ErrorInstance ''Invalid time value''))"
section \<open>The key encoder\<close>

datatype DatabaseOperation = OpSelect | OpInsert | OpUpdate | OpDelete | OpUpsert

fun operation_name :: "DatabaseOperation \<Rightarrow> string" where
  "operation_name OpSelect = ''select''"
| "operation_name OpInsert = ''insert''"
| "operation_name OpUpdate = ''update''"
| "operation_name OpDelete = ''delete''"
| "operation_name OpUpsert = ''upsert''"

text \<open>The string that \<^verbatim>\<open>generateCacheKey\<close> builds before encoding it.\<close>

definition key_text :: "string \<Rightarrow> DatabaseOperation \<Rightarrow> json \<Rightarrow> string" where
  "key_text table operation params =
     table @ '':'' @ operation_name operation @ '':'' @ JSON_stringify params"

definition generateCacheKey :: "string \<Rightarrow> DatabaseOperation \<Rightarrow> json \<Rightarrow> string" where
  "generateCacheKey table operation params =
     base64 (utf8_bytes (key_text table operation params))"


section \<open>The service, its collaborators and its state\<close>

text \<open>
  A cache entry is the anonymous object \<^verbatim>\<open>{ data, expiresAt, tags }\<close> of the source; its
  fields carry the prefix \<open>entry_\<close> to keep them apart from those of \<^verbatim>\<open>QueryResult\<close>.
  \<open>entry_expiresAt\<close> is in epoch milliseconds.
\<close>

record cache_entry =
  entry_data :: json
  entry_expiresAt :: int
  entry_tags :: "string list"

text \<open>
  \<^verbatim>\<open>QueryResult<T>\<close>. \<^verbatim>\<open>data: T | null\<close> is a value, \<open>JNull\<close> when it is \<^verbatim>\<open>null\<close>;
  \<^verbatim>\<open>error: string | null\<close> is \<open>None\<close> when it is \<^verbatim>\<open>null\<close>. The optional \<^verbatim>\<open>cachedAt\<close> and
  \<^verbatim>\<open>expiresAt\<close> are the strings that \<^verbatim>\<open>toISOString\<close> gives, \<open>None\<close> when the result has
  none.
\<close>

record QueryResult =
  data :: json
  error :: "string option"
  fromCache :: bool
  cachedAt :: "string option"
  expiresAt :: "string option"

text \<open>
  The data gateway is the Supabase client. A request is the chain of builder calls that
  the service makes before it awaits the query; the answer is the awaited
  \<^verbatim>\<open>{ data, error }\<close>, or a thrown value when the chain or the await throws.
\<close>

datatype gw_call =
    Call_from string
  | Call_select json
  | Call_insert json
  | Call_update json
  | Call_delete
  | Call_upsert json
  | Call_onConflict json
  | Call_in string json
  | Call_eq string json
  | Call_gte string json
  | Call_lte string json
  | Call_gt string json
  | Call_lt string json
  | Call_like string json
  | Call_ilike string json
  | Call_order json bool
  | Call_limit json
  | Call_range json json
  | Call_rpc string json

datatype gw_error = GwError (message: string)

datatype gw_response = Resolved json "gw_error option" | Rejected thrown

text \<open>
  The remote store has a state of its own: its answer is a function of the requests it
  has received so far and of the request at hand.
\<close>

type_synonym gateway = "gw_call list list \<Rightarrow> gw_call list \<Rightarrow> gw_response"

text \<open>The calls made to the logger: level, message, context and the data argument.\<close>

datatype log_level = Info | Warn | Error | Debug

datatype log_data = NoData | Data json | ErrorData gw_error | ThrownData thrown

datatype log_call = Log log_level string string log_data

text \<open>
  The private fields of \<^verbatim>\<open>DatabaseService\<close>, with the two observable effects of the
  service beside them: the requests sent to the gateway and the calls made to the logger,
  both in order. \<^verbatim>\<open>cache\<close> is a JavaScript \<^verbatim>\<open>Map\<close>: an association list in insertion order
  with one pair for each key. The timer that \<^verbatim>\<open>setupCacheCleanup\<close> starts removes, once a
  minute, entries that have expired; a lookup treats such an entry as missing and
  removes it itself, so the timer changes no outcome and is left out.
\<close>

record DatabaseService =
  cache :: "(string \<times> cache_entry) list"
  queryCache :: "(string \<times> QueryResult) list"
  isCacheEnabled :: bool
  defaultTTL :: int
  gateway_calls :: "gw_call list list"
  logs :: "log_call list"

definition logger :: "log_level \<Rightarrow> string \<Rightarrow> log_data \<Rightarrow> DatabaseService \<Rightarrow> DatabaseService" where
  "logger lvl msg d s = s\<lparr>logs := logs s @ [Log lvl msg ''database'' d]\<rparr>"

text \<open>The state after \<^verbatim>\<open>new DatabaseService()\<close>.\<close>

definition new_DatabaseService :: DatabaseService where
  "new_DatabaseService =
     \<lparr>cache = [], queryCache = [], isCacheEnabled = True, defaultTTL = 300,
      gateway_calls = [], logs = []\<rparr>"

subsection \<open>Option objects\<close>

text \<open>
  The option objects of the operations, in their declared types: \<^verbatim>\<open>CacheConfig\<close> with
  \<^verbatim>\<open>ttl: number\<close>, \<^verbatim>\<open>key: string\<close> and \<^verbatim>\<open>tags?: string[]\<close>; \<^verbatim>\<open>orderBy\<close> with \<^verbatim>\<open>column: string\<close>
  and \<^verbatim>\<open>ascending?: boolean\<close>; and the options of \<^verbatim>\<open>select\<close>, of the write operations
  and of \<^verbatim>\<open>upsert\<close> together, since \<^verbatim>\<open>batch\<close> hands one \<^verbatim>\<open>options\<close> object to any of them.
  An object is the list of its properties in enumeration order, each name at most
  once; a property that is missing, or whose value is \<^verbatim>\<open>undefined\<close>, is not in the list.
  The filter values are of type \<^verbatim>\<open>any\<close>.
\<close>

datatype cache_property = Ttl int | Key string | Tags "string list"

datatype order_property = Column string | Ascending bool

datatype option_property =
    Columns string
  | Filters "(string \<times> json) list"
  | OrderBy "order_property list"
  | Limit int
  | Offset int
  | Cache "cache_property list"
  | InvalidateTags "string list"
  | OnConflict string

type_synonym query_options = "option_property list"

text \<open>Reading a property: \<open>None\<close> is \<^verbatim>\<open>undefined\<close>.\<close>

fun config_ttl :: "cache_property list \<Rightarrow> int option" where
  "config_ttl [] = None"
| "config_ttl (Ttl n # ps) = Some n"
| "config_ttl (p # ps) = config_ttl ps"

fun config_tags :: "cache_property list \<Rightarrow> string list option" where
  "config_tags [] = None"
| "config_tags (Tags ts # ps) = Some ts"
| "config_tags (p # ps) = config_tags ps"

fun order_column :: "order_property list \<Rightarrow> string option" where
  "order_column [] = None"
| "order_column (Column c # ps) = Some c"
| "order_column (p # ps) = order_column ps"

fun order_ascending :: "order_property list \<Rightarrow> bool option" where
  "order_ascending [] = None"
| "order_ascending (Ascending b # ps) = Some b"
| "order_ascending (p # ps) = order_ascending ps"

fun opt_columns :: "query_options \<Rightarrow> string option" where
  "opt_columns [] = None"
| "opt_columns (Columns c # ps) = Some c"
| "opt_columns (p # ps) = opt_columns ps"

fun opt_filters :: "query_options \<Rightarrow> (string \<times> json) list option" where
  "opt_filters [] = None"
| "opt_filters (Filters fs # ps) = Some fs"
| "opt_filters (p # ps) = opt_filters ps"

fun opt_orderBy :: "query_options \<Rightarrow> order_property list option" where
  "opt_orderBy [] = None"
| "opt_orderBy (OrderBy ob # ps) = Some ob"
| "opt_orderBy (p # ps) = opt_orderBy ps"

fun opt_limit :: "query_options \<Rightarrow> int option" where
  "opt_limit [] = None"
| "opt_limit (Limit n # ps) = Some n"
| "opt_limit (p # ps) = opt_limit ps"

fun opt_offset :: "query_options \<Rightarrow> int option" where
  "opt_offset [] = None"
| "opt_offset (Offset n # ps) = Some n"
| "opt_offset (p # ps) = opt_offset ps"

fun opt_cache :: "query_options \<Rightarrow> cache_property list option" where
  "opt_cache [] = None"
| "opt_cache (Cache c # ps) = Some c"
| "opt_cache (p # ps) = opt_cache ps"

fun opt_invalidateTags :: "query_options \<Rightarrow> string list option" where
  "opt_invalidateTags [] = None"
| "opt_invalidateTags (InvalidateTags ts # ps) = Some ts"
| "opt_invalidateTags (p # ps) = opt_invalidateTags ps"

fun opt_onConflict :: "query_options \<Rightarrow> string option" where
  "opt_onConflict [] = None"
| "opt_onConflict (OnConflict c # ps) = Some c"
| "opt_onConflict (p # ps) = opt_onConflict ps"

text \<open>The option object as the value that \<^verbatim>\<open>JSON.stringify\<close> serialises for the key.\<close>

fun cache_property_json :: "cache_property \<Rightarrow> string \<times> json" where
  "cache_property_json (Ttl n) = (''ttl'', JNum n)"
| "cache_property_json (Key k) = (''key'', JStr k)"
| "cache_property_json (Tags ts) = (''tags'', JArr (map JStr ts))"

fun order_property_json :: "order_property \<Rightarrow> string \<times> json" where
  "order_property_json (Column c) = (''column'', JStr c)"
| "order_property_json (Ascending b) = (''ascending'', JBool b)"

fun option_property_json :: "option_property \<Rightarrow> string \<times> json" where
  "option_property_json (Columns c) = (''columns'', JStr c)"
| "option_property_json (Filters fs) = (''filters'', JObj fs)"
| "option_property_json (OrderBy ob) = (''orderBy'', JObj (map order_property_json ob))"
| "option_property_json (Limit n) = (''limit'', JNum n)"
| "option_property_json (Offset n) = (''offset'', JNum n)"
| "option_property_json (Cache c) = (''cache'', JObj (map cache_property_json c))"
| "option_property_json (InvalidateTags ts) = (''invalidateTags'', JArr (map JStr ts))"
| "option_property_json (OnConflict c) = (''onConflict'', JStr c)"

definition options_json :: "query_options \<Rightarrow> json" where
  "options_json options = JObj (map option_property_json options)"

text \<open>
  \<^verbatim>\<open>x || y\<close> on an optional number and on an optional string: a missing one, the number 0
  and the empty string are falsy and give \<open>y\<close>. An object or an array is truthy whenever
  it is there.
\<close>

fun number_or :: "int option \<Rightarrow> int \<Rightarrow> int" where
  "number_or None y = y"
| "number_or (Some n) y = (if n = 0 then y else n)"

fun string_or :: "string option \<Rightarrow> string \<Rightarrow> string" where
  "string_or None y = y"
| "string_or (Some str) y = (if str = [] then y else str)"

section \<open>The cache store\<close>

definition setCacheEnabled :: "DatabaseService \<Rightarrow> bool \<Rightarrow> DatabaseService" where
  "setCacheEnabled s enabled =
     logger Info (''Database caching '' @ (if enabled then ''enabled'' else ''disabled'')) NoData
       (s\<lparr>isCacheEnabled := enabled\<rparr>)"

definition setDefaultTTL :: "DatabaseService \<Rightarrow> int \<Rightarrow> DatabaseService" where
  "setDefaultTTL s ttl =
     logger Info (''Default cache TTL set to '' @ number_to_string ttl @ '' seconds'') NoData
       (s\<lparr>defaultTTL := ttl\<rparr>)"

text \<open>\<open>now\<close> is the reading of \<^verbatim>\<open>Date.now()\<close>, in epoch milliseconds.\<close>

definition isCacheValid :: "DatabaseService \<Rightarrow> int \<Rightarrow> string \<Rightarrow> bool" where
  "isCacheValid s now key =
     (case map_of (cache s) key of
        None \<Rightarrow> False
      | Some entry \<Rightarrow> now < entry_expiresAt entry)"

text \<open>
  \<^verbatim>\<open>getFromCache\<close> gives an outcome and the state it leaves. The outcome is the returned
  value on the right, \<open>None\<close> for \<^verbatim>\<open>null\<close>, or the value thrown on the left. A missing or
  expired entry is deleted from the map on the way. On a hit the object literal renders
  \<^verbatim>\<open>cachedAt\<close> first and \<^verbatim>\<open>expiresAt\<close> second; either \<^verbatim>\<open>toISOString\<close> can throw, nothing in
  \<^verbatim>\<open>getFromCache\<close> catches it, and the state is then as it was.
\<close>

definition getFromCache ::
  "DatabaseService \<Rightarrow> int \<Rightarrow> string \<Rightarrow> (thrown + QueryResult option) \<times> DatabaseService" where
  "getFromCache s now key =
     (if \<not> isCacheEnabled s then (Inr None, s)
      else
        (case map_of (cache s) key of
           None \<Rightarrow> (Inr None, s\<lparr>cache := AList.delete key (cache s)\<rparr>)
         | Some entry \<Rightarrow>
             if \<not> isCacheValid s now key
             then (Inr None, s\<lparr>cache := AList.delete key (cache s)\<rparr>)
             else
               (case Date_toISOString (entry_expiresAt entry - defaultTTL s * 1000) of
                  Inl e \<Rightarrow> (Inl e, s)
                | Inr cached_at \<Rightarrow>
                    (case Date_toISOString (entry_expiresAt entry) of
                       Inl e \<Rightarrow> (Inl e, s)
                     | Inr expires_at \<Rightarrow>
                         (Inr (Some \<lparr>data = entry_data entry,
                                     error = None,
                                     fromCache = True,
                                     cachedAt = Some cached_at,
                                     expiresAt = Some expires_at\<rparr>),
                          s)))))"

text \<open>
  \<^verbatim>\<open>setCache(key, data, ttl = this.defaultTTL, tags = [])\<close>: \<open>ttl\<close> is \<open>None\<close> when the caller
  passes \<^verbatim>\<open>undefined\<close>, and the default applies.
\<close>

definition setCache ::
  "DatabaseService \<Rightarrow> int \<Rightarrow> string \<Rightarrow> json \<Rightarrow> int option \<Rightarrow> string list \<Rightarrow> DatabaseService" where
  "setCache s now key d ttl_arg tags =
     (if \<not> isCacheEnabled s then s
      else
        (let ttl = (case ttl_arg of None \<Rightarrow> defaultTTL s | Some t \<Rightarrow> t);
             expires = now + ttl * 1000
         in logger Debug ''Data cached''
              (Data (JObj [(''key'', JStr key), (''ttl'', JNum ttl),
                           (''tags'', JArr (map JStr tags))]))
              (s\<lparr>cache := AList.update key
                    \<lparr>entry_data = d, entry_expiresAt = expires, entry_tags = tags\<rparr> (cache s)\<rparr>)))"

text \<open>
  The loop of \<^verbatim>\<open>invalidateCacheByTags\<close> over \<^verbatim>\<open>this.cache.entries()\<close>. The second argument
  is what is left to visit, the pair is the map and \<^verbatim>\<open>invalidatedCount\<close>. Deleting the
  entry under visit leaves the entries still to come in place, so they are those of the
  map at the start of the loop.
\<close>

fun invalidate_loop ::
  "string list \<Rightarrow> (string \<times> cache_entry) list \<Rightarrow>
   (string \<times> cache_entry) list \<times> nat \<Rightarrow> (string \<times> cache_entry) list \<times> nat" where
  "invalidate_loop tags [] acc = acc"
| "invalidate_loop tags ((key, entry) # rest) (c, invalidatedCount) =
     (if list_ex (\<lambda>tag. tag \<in> set tags) (entry_tags entry)
      then invalidate_loop tags rest (AList.delete key c, Suc invalidatedCount)
      else invalidate_loop tags rest (c, invalidatedCount))"

text \<open>
  \<^verbatim>\<open>invalidateCacheByTags\<close> returns \<^verbatim>\<open>void\<close>: its only results are the new map and the
  logger call that carries the count.
\<close>

definition invalidateCacheByTags :: "DatabaseService \<Rightarrow> string list \<Rightarrow> DatabaseService" where
  "invalidateCacheByTags s tags =
     (if \<not> isCacheEnabled s then s
      else
        (case invalidate_loop tags (cache s) (cache s, 0) of
           (c, invalidatedCount) \<Rightarrow>
             logger Info (''Cache invalidated for tags: '' @ join '', '' tags)
               (Data (JObj [(''invalidatedCount'', JNum (int invalidatedCount))]))
               (s\<lparr>cache := c\<rparr>)))"

definition clearCache :: "DatabaseService \<Rightarrow> DatabaseService" where
  "clearCache s = logger Info ''All cache cleared'' NoData (s\<lparr>cache := [], queryCache := []\<rparr>)"

section \<open>The query coordinator\<close>

subsection \<open>Results and sending a request\<close>

definition failure :: "string \<Rightarrow> QueryResult" where
  "failure msg = \<lparr>data = JNull, error = Some msg, fromCache = False, cachedAt = None, expiresAt = None\<rparr>"

definition success :: "json \<Rightarrow> QueryResult" where
  "success d = \<lparr>data = d, error = None, fromCache = False, cachedAt = None, expiresAt = None\<rparr>"

text \<open>\<^verbatim>\<open>error instanceof Error ? error.message : 'Unknown error'\<close>\<close>

fun thrown_message :: "thrown \<Rightarrow> string" where
  "thrown_message (ErrorInstance msg) = msg"
| "thrown_message (NonError v) = ''Unknown error''"

text \<open>\<^verbatim>\<open>data?.length || 0\<close>\<close>

fun js_length :: "json \<Rightarrow> int" where
  "js_length (JArr xs) = int (length xs)"
| "js_length (JStr s) = int (length s)"
| "js_length v = 0"

text \<open>Awaiting a query: the gateway sees the request and answers it.\<close>

definition send :: "gateway \<Rightarrow> DatabaseService \<Rightarrow> gw_call list \<Rightarrow> gw_response \<times> DatabaseService" where
  "send gw s request =
     (gw (gateway_calls s) request, s\<lparr>gateway_calls := gateway_calls s @ [request]\<rparr>)"

subsection \<open>\<^verbatim>\<open>select\<close>\<close>

definition range_filter ::
  "(string \<Rightarrow> json \<Rightarrow> gw_call) \<Rightarrow> string \<Rightarrow> json \<Rightarrow> string \<Rightarrow> gw_call list" where
  "range_filter call key val name =
     (if member_of val name \<noteq> JUndefined then [call key (member_of val name)] else [])"

text \<open>\<^verbatim>\<open>Array.isArray(value)\<close> and \<^verbatim>\<open>typeof value === 'object'\<close>; the latter holds of \<^verbatim>\<open>null\<close> too.\<close>

fun is_array :: "json \<Rightarrow> bool" where
  "is_array (JArr xs) = True"
| "is_array v = False"

fun typeof_object :: "json \<Rightarrow> bool" where
  "typeof_object JNull = True"
| "typeof_object (JArr xs) = True"
| "typeof_object (JObj fs) = True"
| "typeof_object v = False"

text \<open>
  The body of the \<^verbatim>\<open>forEach\<close> over the filters: an array becomes \<^verbatim>\<open>in\<close>, an object that is
  not \<^verbatim>\<open>null\<close> is read as a range, anything else becomes \<^verbatim>\<open>eq\<close>.
\<close>

definition apply_filter :: "string \<times> json \<Rightarrow> gw_call list" where
  "apply_filter = (\<lambda>(key, val).
     if is_array val then [Call_in key val]
     else if typeof_object val \<and> val \<noteq> JNull then
       range_filter Call_gte key val ''gte'' @
       range_filter Call_lte key val ''lte'' @
       range_filter Call_gt key val ''gt'' @
       range_filter Call_lt key val ''lt'' @
       range_filter Call_like key val ''like'' @
       range_filter Call_ilike key val ''ilike''
     else [Call_eq key val])"

text \<open>The three steps of \<^verbatim>\<open>select\<close> that the source marks as applying filters, ordering and pagination.\<close>

definition apply_filters :: "query_options \<Rightarrow> gw_call list" where
  "apply_filters options =
     (case opt_filters options of
        None \<Rightarrow> []
      | Some filters \<Rightarrow> concat (map apply_filter filters))"

definition apply_ordering :: "query_options \<Rightarrow> gw_call list" where
  "apply_ordering options =
     (case opt_orderBy options of
        None \<Rightarrow> []
      | Some orderBy \<Rightarrow>
          [Call_order (case order_column orderBy of None \<Rightarrow> JUndefined | Some c \<Rightarrow> JStr c)
             (order_ascending orderBy \<noteq> Some False)])"

text \<open>\<^verbatim>\<open>if (options.limit)\<close> and \<^verbatim>\<open>if (options.offset)\<close> are false of a missing number and of 0.\<close>

definition apply_pagination :: "query_options \<Rightarrow> gw_call list" where
  "apply_pagination options =
     (case opt_limit options of
        None \<Rightarrow> []
      | Some limit \<Rightarrow> if limit \<noteq> 0 then [Call_limit (JNum limit)] else []) @
     (case opt_offset options of
        None \<Rightarrow> []
      | Some offset \<Rightarrow>
          if offset \<noteq> 0
          then [Call_range (JNum offset) (JNum (offset + number_or (opt_limit options) 10 - 1))]
          else [])"

text \<open>The query that \<^verbatim>\<open>select\<close> builds from its options, as the chain of calls on the client.\<close>

definition select_query :: "string \<Rightarrow> query_options \<Rightarrow> gw_call list" where
  "select_query table options =
     [Call_from table,
      Call_select (JStr (string_or (opt_columns options) ''*''))] @
     apply_filters options @ apply_ordering options @ apply_pagination options"

text \<open>
  The part of the read operations after a successful answer: cache the rows when the
  options carry a cache directive, with \<^verbatim>\<open>options.cache.ttl\<close> and \<^verbatim>\<open>options.cache.tags || []\<close>.
\<close>

definition cache_result ::
  "DatabaseService \<Rightarrow> int \<Rightarrow> string \<Rightarrow> json \<Rightarrow> query_options \<Rightarrow> DatabaseService" where
  "cache_result s now cacheKey d options =
     (case opt_cache options of
        None \<Rightarrow> s
      | Some config \<Rightarrow>
          setCache s now cacheKey d (config_ttl config)
            (case config_tags config of None \<Rightarrow> [] | Some tags \<Rightarrow> tags))"

text \<open>
  \<open>now_get\<close> is the clock reading of the lookup, \<open>now_set\<close> the one of the store after the
  gateway has answered. \<open>options\<close> is the option object; a call without options passes
  the empty one. The lookup stands before the \<^verbatim>\<open>try\<close>: what it throws, \<^verbatim>\<open>select\<close> throws.
  Everything after it is inside the \<^verbatim>\<open>try\<close>, whose \<^verbatim>\<open>catch\<close> returns a result.
\<close>

definition select ::
  "gateway \<Rightarrow> DatabaseService \<Rightarrow> int \<Rightarrow> int \<Rightarrow> string \<Rightarrow> query_options \<Rightarrow>
   (thrown + QueryResult) \<times> DatabaseService" where
  "select gw s now_get now_set table options =
     (let cacheKey = generateCacheKey table OpSelect (options_json options) in
      case getFromCache s now_get cacheKey of
        (Inl e, s1) \<Rightarrow> (Inl e, s1)
      | (Inr (Some cachedResult), s1) \<Rightarrow> (Inr cachedResult, s1)
      | (Inr None, s1) \<Rightarrow>
          (case send gw s1 (select_query table options) of
             (Rejected e, s2) \<Rightarrow>
               (Inr (failure (thrown_message e)),
                logger Error (''Database select exception for table '' @ table) (ThrownData e) s2)
           | (Resolved d (Some err), s2) \<Rightarrow>
               (Inr (failure (message err)),
                logger Error (''Database select error for table '' @ table) (ErrorData err) s2)
           | (Resolved d None, s2) \<Rightarrow>
               (Inr (success d),
                logger Debug (''Database select completed for table '' @ table)
                  (Data (JObj [(''rowCount'', JNum (js_length d)),
                               (''cached'', JBool (opt_cache options \<noteq> None))]))
                  (cache_result s2 now_set cacheKey d options))))"

subsection \<open>The write operations\<close>

text \<open>The part of the write operations after a successful answer.\<close>

definition invalidate_related :: "DatabaseService \<Rightarrow> query_options \<Rightarrow> DatabaseService" where
  "invalidate_related s options =
     (case opt_invalidateTags options of
        None \<Rightarrow> s
      | Some tags \<Rightarrow> invalidateCacheByTags s tags)"

definition insert_rows ::
  "gateway \<Rightarrow> DatabaseService \<Rightarrow> string \<Rightarrow> json \<Rightarrow> query_options \<Rightarrow>
   QueryResult \<times> DatabaseService" where
  "insert_rows gw s table d options =
     (case send gw s [Call_from table, Call_insert d, Call_select JUndefined] of
        (Rejected e, s1) \<Rightarrow>
          (failure (thrown_message e),
           logger Error (''Database insert exception for table '' @ table) (ThrownData e) s1)
      | (Resolved result (Some err), s1) \<Rightarrow>
          (failure (message err),
           logger Error (''Database insert error for table '' @ table) (ErrorData err) s1)
      | (Resolved result None, s1) \<Rightarrow>
          (success result,
           logger Info (''Database insert completed for table '' @ table)
             (Data (JObj [(''rowCount'',
                JNum (case d of JArr xs \<Rightarrow> int (length xs) | _ \<Rightarrow> 1))]))
             (invalidate_related s1 options)))"

text \<open>
  \<^verbatim>\<open>Object.entries(filters)\<close> throws a \<^verbatim>\<open>TypeError\<close> on \<^verbatim>\<open>undefined\<close> and \<^verbatim>\<open>null\<close>, which \<^verbatim>\<open>batch\<close>
  can pass; it is thrown inside the \<^verbatim>\<open>try\<close>, before the query is awaited.
\<close>

definition entries_TypeError :: string where
  "entries_TypeError = ''Cannot convert undefined or null to object''"

definition eq_filters :: "json \<Rightarrow> gw_call list" where
  "eq_filters filters = map (\<lambda>(key, val). Call_eq key val) (object_entries filters)"

definition update ::
  "gateway \<Rightarrow> DatabaseService \<Rightarrow> string \<Rightarrow> json \<Rightarrow> json \<Rightarrow> query_options \<Rightarrow>
   QueryResult \<times> DatabaseService" where
  "update gw s table d filters options =
     (if filters = JUndefined \<or> filters = JNull
      then (failure entries_TypeError,
            logger Error (''Database update exception for table '' @ table)
              (ThrownData (ErrorInstance entries_TypeError)) s)
      else
        (case send gw s ([Call_from table, Call_update d] @ eq_filters filters @
                         [Call_select JUndefined]) of
           (Rejected e, s1) \<Rightarrow>
             (failure (thrown_message e),
              logger Error (''Database update exception for table '' @ table) (ThrownData e) s1)
         | (Resolved result (Some err), s1) \<Rightarrow>
             (failure (message err),
              logger Error (''Database update error for table '' @ table) (ErrorData err) s1)
         | (Resolved result None, s1) \<Rightarrow>
             (success result,
              logger Info (''Database update completed for table '' @ table)
                (Data (JObj [(''rowCount'', JNum (js_length result))]))
                (invalidate_related s1 options))))"

definition delete ::
  "gateway \<Rightarrow> DatabaseService \<Rightarrow> string \<Rightarrow> json \<Rightarrow> query_options \<Rightarrow>
   QueryResult \<times> DatabaseService" where
  "delete gw s table filters options =
     (if filters = JUndefined \<or> filters = JNull
      then (failure entries_TypeError,
            logger Error (''Database delete exception for table '' @ table)
              (ThrownData (ErrorInstance entries_TypeError)) s)
      else
        (case send gw s ([Call_from table, Call_delete] @ eq_filters filters) of
           (Rejected e, s1) \<Rightarrow>
             (failure (thrown_message e),
              logger Error (''Database delete exception for table '' @ table) (ThrownData e) s1)
         | (Resolved result (Some err), s1) \<Rightarrow>
             (failure (message err),
              logger Error (''Database delete error for table '' @ table) (ErrorData err) s1)
         | (Resolved result None, s1) \<Rightarrow>
             (\<lparr>data = JNull, error = None, fromCache = False, cachedAt = None, expiresAt = None\<rparr>,
              logger Info (''Database delete completed for table '' @ table) NoData
                (invalidate_related s1 options))))"

definition upsert ::
  "gateway \<Rightarrow> DatabaseService \<Rightarrow> string \<Rightarrow> json \<Rightarrow> query_options \<Rightarrow>
   QueryResult \<times> DatabaseService" where
  "upsert gw s table d options =
     (case send gw s ([Call_from table, Call_upsert d] @
                      (case opt_onConflict options of
                         None \<Rightarrow> []
                       | Some onConflict \<Rightarrow>
                           if onConflict \<noteq> [] then [Call_onConflict (JStr onConflict)] else []) @
                      [Call_select JUndefined]) of
        (Rejected e, s1) \<Rightarrow>
          (failure (thrown_message e),
           logger Error (''Database upsert exception for table '' @ table) (ThrownData e) s1)
      | (Resolved result (Some err), s1) \<Rightarrow>
          (failure (message err),
           logger Error (''Database upsert error for table '' @ table) (ErrorData err) s1)
      | (Resolved result None, s1) \<Rightarrow>
          (success result,
           logger Info (''Database upsert completed for table '' @ table)
             (Data (JObj [(''rowCount'',
                JNum (case d of JArr xs \<Rightarrow> int (length xs) | _ \<Rightarrow> 1))]))
             (invalidate_related s1 options)))"

subsection \<open>\<^verbatim>\<open>rawQuery\<close>\<close>

definition raw_params :: "string \<Rightarrow> json list \<Rightarrow> json" where
  "raw_params query params = JObj [(''query'', JStr query), (''params'', JArr params)]"

definition rawQuery ::
  "gateway \<Rightarrow> DatabaseService \<Rightarrow> int \<Rightarrow> int \<Rightarrow> string \<Rightarrow> json list \<Rightarrow> query_options \<Rightarrow>
   (thrown + QueryResult) \<times> DatabaseService" where
  "rawQuery gw s now_get now_set query params options =
     (let cacheKey = generateCacheKey ''raw'' OpSelect (raw_params query params) in
      case getFromCache s now_get cacheKey of
        (Inl e, s1) \<Rightarrow> (Inl e, s1)
      | (Inr (Some cachedResult), s1) \<Rightarrow> (Inr cachedResult, s1)
      | (Inr None, s1) \<Rightarrow>
          (case send gw s1 [Call_rpc ''execute_sql'' (raw_params query params)] of
             (Rejected e, s2) \<Rightarrow>
               (Inr (failure (thrown_message e)),
                logger Error ''Database raw query exception'' (ThrownData e) s2)
           | (Resolved d (Some err), s2) \<Rightarrow>
               (Inr (failure (message err)),
                logger Error ''Database raw query error'' (ErrorData err) s2)
           | (Resolved d None, s2) \<Rightarrow>
               (Inr (success d),
                logger Debug ''Database raw query completed''
                  (Data (JObj [(''rowCount'', JNum (js_length d)),
                               (''cached'', JBool (opt_cache options \<noteq> None))]))
                  (cache_result s2 now_set cacheKey d options))))"

section \<open>The batch runner\<close>

text \<open>
  One element of the array given to \<^verbatim>\<open>batch\<close>. \<^verbatim>\<open>operation\<close> is the string the \<^verbatim>\<open>switch\<close> tests;
  \<^verbatim>\<open>data\<close> and \<^verbatim>\<open>filters\<close> are \<open>JUndefined\<close> when the element has none, \<^verbatim>\<open>options\<close> is \<open>None\<close>
  when it has none and the callee's default \<^verbatim>\<open>{}\<close> applies.
\<close>

datatype batch_op =
  BatchOp (op_operation: string) (op_table: string) (op_data: json) (op_filters: json)
          (op_options: "query_options option")

definition options_or_default :: "batch_op \<Rightarrow> query_options" where
  "options_or_default op = (case op_options op of None \<Rightarrow> [] | Some fs \<Rightarrow> fs)"

text \<open>
  The \<^verbatim>\<open>switch\<close>: the outcome of the operation and the state it leaves. The outcome is a
  result on the right; on the left it is the error thrown by the default branch, or what
  a \<^verbatim>\<open>select\<close> throws. The write operations return whatever happens. The pair of integers
  is the two clock readings a \<^verbatim>\<open>select\<close> takes.
\<close>

definition run_operation ::
  "gateway \<Rightarrow> DatabaseService \<Rightarrow> int \<times> int \<Rightarrow> batch_op \<Rightarrow> (thrown + QueryResult) \<times> DatabaseService" where
  "run_operation gw s clock op =
     (if op_operation op = ''select''
        then select gw s (fst clock) (snd clock) (op_table op) (options_or_default op)
      else if op_operation op = ''insert''
        then apfst Inr (insert_rows gw s (op_table op) (op_data op) (options_or_default op))
      else if op_operation op = ''update''
        then apfst Inr (update gw s (op_table op) (op_data op) (op_filters op) (options_or_default op))
      else if op_operation op = ''delete''
        then apfst Inr (delete gw s (op_table op) (op_filters op) (options_or_default op))
      else if op_operation op = ''upsert''
        then apfst Inr (upsert gw s (op_table op) (op_data op) (options_or_default op))
      else (Inl (ErrorInstance (''Unsupported operation: '' @ op_operation op)), s))"

text \<open>\<^verbatim>\<open>if (result.error)\<close>: a string is truthy when it is not \<^verbatim>\<open>null\<close> and not empty.\<close>

fun error_truthy :: "string option \<Rightarrow> bool" where
  "error_truthy None = False"
| "error_truthy (Some msg) = (msg \<noteq> [])"

text \<open>How the \<^verbatim>\<open>for\<close> loop of \<^verbatim>\<open>batch\<close> ends.\<close>

datatype loop_exit = Completed "json list" | Returned QueryResult | Threw thrown

text \<open>
  The loop, from the operation with index \<open>i\<close> on; \<open>results\<close> is the array built so far.
  \<open>clock i\<close> gives the clock readings during operation \<open>i\<close>.
\<close>

fun batch_loop ::
  "gateway \<Rightarrow> (nat \<Rightarrow> int \<times> int) \<Rightarrow> nat \<Rightarrow> batch_op list \<Rightarrow> json list \<Rightarrow> DatabaseService \<Rightarrow>
   loop_exit \<times> DatabaseService" where
  "batch_loop gw clock i [] results s = (Completed results, s)"
| "batch_loop gw clock i (op # ops) results s =
     (case run_operation gw s (clock i) op of
        (Inl e, s1) \<Rightarrow> (Threw e, s1)
      | (Inr result, s1) \<Rightarrow>
          if error_truthy (error result)
          then (Returned \<lparr>data = JNull, error = error result, fromCache = False,
                          cachedAt = None, expiresAt = None\<rparr>, s1)
          else batch_loop gw clock (Suc i) ops (results @ [data result]) s1)"

definition batch ::
  "gateway \<Rightarrow> (nat \<Rightarrow> int \<times> int) \<Rightarrow> DatabaseService \<Rightarrow> batch_op list \<Rightarrow>
   QueryResult \<times> DatabaseService" where
  "batch gw clock s operations =
     (case batch_loop gw clock 0 operations [] s of
        (Completed results, s1) \<Rightarrow>
          (success (JArr results),
           logger Info ''Batch operation completed''
             (Data (JObj [(''operationCount'', JNum (int (length operations)))])) s1)
      | (Returned r, s1) \<Rightarrow> (r, s1)
      | (Threw e, s1) \<Rightarrow>
          (failure (thrown_message e),
           logger Error ''Batch operation exception'' (ThrownData e) s1))"

section \<open>Notions of the specification and example inputs\<close>

text \<open>The tag set of an entry intersects the tag set given to the invalidation.\<close>

definition tags_intersect :: "string list \<Rightarrow> cache_entry \<Rightarrow> bool" where
  "tags_intersect tags entry = (set (entry_tags entry) \<inter> set tags \<noteq> {})"

text \<open>
  A store with two entries, one tagged \<^verbatim>\<open>invoices\<close> and one without tags, both expiring at
  time 5000; the same store with caching switched off.
\<close>

definition invoice_entry :: cache_entry where
  "invoice_entry =
     \<lparr>entry_data = JObj [(''id'', JNum 1)], entry_expiresAt = 5000, entry_tags = [''invoices'']\<rparr>"

definition untagged_entry :: cache_entry where
  "untagged_entry =
     \<lparr>entry_data = JObj [(''id'', JNum 2)], entry_expiresAt = 5000, entry_tags = []\<rparr>"

definition two_entries :: DatabaseService where
  "two_entries = new_DatabaseService\<lparr>cache := [(''inv:1'', invoice_entry), (''cust:2'', untagged_entry)]\<rparr>"

definition two_entries_disabled :: DatabaseService where
  "two_entries_disabled = two_entries\<lparr>isCacheEnabled := False\<rparr>"

text \<open>
  The time-to-live that the cache directive of a read asks for: the \<^verbatim>\<open>ttl\<close> of
  \<^verbatim>\<open>options.cache\<close>, or the service's default when it has none.
\<close>

definition directive_ttl :: "DatabaseService \<Rightarrow> cache_property list \<Rightarrow> int" where
  "directive_ttl s config = (case config_ttl config of None \<Rightarrow> defaultTTL s | Some t \<Rightarrow> t)"

text \<open>A result never carries both an error and data.\<close>

definition never_both :: "QueryResult \<Rightarrow> bool" where
  "never_both r = (error r \<noteq> None \<longrightarrow> data r = JNull)"

text \<open>
  Gateways for the examples: one that answers every request with \<^verbatim>\<open>{ data: null, error: null }\<close>,
  one that answers with a row, one that answers with an error object, one that throws an
  \<^verbatim>\<open>Error\<close>, one that throws a plain object with a message, which is no \<^verbatim>\<open>Error\<close>, and one
  whose first answer is an error object with the empty message.
\<close>

definition ok_gateway :: gateway where
  "ok_gateway history request = Resolved JNull None"

definition rows_gateway :: gateway where
  "rows_gateway history request = Resolved (JArr [JObj [(''id'', JNum 1)]]) None"

definition failing_gateway :: gateway where
  "failing_gateway history request = Resolved JNull (Some (GwError ''permission denied''))"



definition empty_message_gateway :: gateway where
  "empty_message_gateway history request =
     (if history = [] then Resolved JNull (Some (GwError [])) else Resolved JNull None)"

text \<open>
  Options of a read of the paid invoices, cached for 5 seconds under the tag \<^verbatim>\<open>invoices\<close>;
  and a batch of an insert and a delete.
\<close>

definition paid_invoices :: query_options where
  "paid_invoices =
     [Filters [(''status'', JStr ''paid'')],
      Cache [Ttl 5, Key ''paid'', Tags [''invoices'']]]"

definition insert_then_delete :: "batch_op list" where
  "insert_then_delete =
     [BatchOp ''insert'' ''invoices'' (JObj [(''id'', JNum 1)]) JUndefined None,
      BatchOp ''delete'' ''customers'' JUndefined (JObj [(''id'', JNum 7)]) None]"

text \<open>
  A read of all invoices cached for 8640000000001 seconds, and the service after a new
  instance has answered it at time 1000 from the gateway: the entry it stores expires at
  8640000000002000, which is past the last time value of a \<^verbatim>\<open>Date\<close>.
\<close>

definition far_read :: query_options where
  "far_read = [Cache [Ttl 8640000000001, Key ''all-invoices'', Tags [''invoices'']]]"

definition far_entry_stored :: DatabaseService where
  "far_entry_stored = snd (select rows_gateway new_DatabaseService 1000 1000 ''invoices'' far_read)"

text \<open>
  A service whose cache holds an entry under the key of the read of the paid invoices
  and one under the key of the raw query \<^verbatim>\<open>select 1\<close>.
\<close>

definition cached_select :: DatabaseService where
  "cached_select = new_DatabaseService
     \<lparr>cache := [(generateCacheKey ''invoices'' OpSelect (options_json paid_invoices), invoice_entry),
                (generateCacheKey ''raw'' OpSelect (raw_params ''select 1'' []), untagged_entry)]\<rparr>"

text \<open>The same service with caching switched off.\<close>

definition cached_select_disabled :: DatabaseService where
  "cached_select_disabled = cached_select\<lparr>isCacheEnabled := False\<rparr>"

text \<open>
  What forwarding a filter unchanged means on the client: a call that carries the
  caller's key and value, \<^verbatim>\<open>in\<close> for an array and \<^verbatim>\<open>eq\<close> otherwise.
\<close>

definition forward_filter :: "string \<times> json \<Rightarrow> gw_call" where
  "forward_filter = (\<lambda>(key, val). case val of JArr xs \<Rightarrow> Call_in key val | _ \<Rightarrow> Call_eq key val)"

text \<open>
  The reading of an object-valued filter as a range: of the six operator names, in this
  order, each one that the object has with a value other than \<^verbatim>\<open>undefined\<close> gives one call
  with the filter's key and that value. The other properties of the object give nothing.
\<close>

definition range_operators :: "(string \<times> (string \<Rightarrow> json \<Rightarrow> gw_call)) list" where
  "range_operators =
     [(''gte'', Call_gte), (''lte'', Call_lte), (''gt'', Call_gt), (''lt'', Call_lt),
      (''like'', Call_like), (''ilike'', Call_ilike)]"

definition range_reading :: "string \<Rightarrow> (string \<times> json) list \<Rightarrow> gw_call list" where
  "range_reading key obj =
     concat (map (\<lambda>(name, call).
                    case map_of obj name of
                      None \<Rightarrow> []
                    | Some bound \<Rightarrow> if bound = JUndefined then [] else [call key bound])
                 range_operators)"

text \<open>
  What the gateway is to receive for one filter of the caller, according to the amended
  reading of the pass-through rule: the range reading for an object, the filter itself
  for any other value.
\<close>

definition forwarded_filter :: "string \<times> json \<Rightarrow> gw_call list" where
  "forwarded_filter = (\<lambda>(key, val).
     case val of
       JObj obj \<Rightarrow> range_reading key obj
     | _ \<Rightarrow> [forward_filter (key, val)])"

text \<open>
  The query the gateway is to receive for a read of \<open>table\<close>, given what the caller
  supplied as columns, filters, ordering, limit and offset (\<open>None\<close> for what the caller
  left out): the columns, or \<^verbatim>\<open>*\<close> for none or the empty string; the filters in the caller's
  order; the ordering, ascending unless the caller said \<^verbatim>\<open>false\<close>; the limit unless it is
  0; and, unless the offset is 0, the range from the offset over as many rows as the
  limit says, 10 when there is no limit or the limit is 0.
\<close>

definition forwarded_query ::
  "string \<Rightarrow> string option \<Rightarrow> (string \<times> json) list option \<Rightarrow> (string option \<times> bool option) option \<Rightarrow>
   int option \<Rightarrow> int option \<Rightarrow> gw_call list" where
  "forwarded_query table cols fs order_by lim off =
     [Call_from table,
      Call_select (JStr (case cols of None \<Rightarrow> ''*'' | Some c \<Rightarrow> if c = [] then ''*'' else c))] @
     (case fs of None \<Rightarrow> [] | Some filters \<Rightarrow> concat (map forwarded_filter filters)) @
     (case order_by of
        None \<Rightarrow> []
      | Some (column, ascending) \<Rightarrow>
          [Call_order (case column of None \<Rightarrow> JUndefined | Some c \<Rightarrow> JStr c)
             (case ascending of None \<Rightarrow> True | Some b \<Rightarrow> b)]) @
     (case lim of None \<Rightarrow> [] | Some l \<Rightarrow> if l = 0 then [] else [Call_limit (JNum l)]) @
     (case off of
        None \<Rightarrow> []
      | Some start \<Rightarrow>
          if start = 0 then []
          else [Call_range (JNum start)
                  (JNum (start + (case lim of None \<Rightarrow> 10 | Some l \<Rightarrow> if l = 0 then 10 else l) - 1))])"

text \<open>
  Two reads: one with a range filter, a filter with an operator the service does not
  know and an offset without a limit; one with a bag of plain, range and list filters,
  an ordering and a page.
\<close>

definition reinterpreted_read :: query_options where
  "reinterpreted_read =
     [Filters [(''amount'', JObj [(''gte'', JNum 100)]),
               (''status'', JObj [(''neq'', JStr ''paid'')])],
      Offset 20]"

definition mixed_read :: query_options where
  "mixed_read =
     [Filters [(''status'', JStr ''paid''),
               (''amount'', JObj [(''lt'', JNum 500), (''gte'', JNum 100)]),
               (''id'', JArr [JNum 1, JNum 2]),
               (''archived'', JNull)],
      OrderBy [Column ''created_at'', Ascending False],
      Limit 25,
      Offset 50]"

section \<open>Facts about the cache store\<close>

lemma logger_fields [simp]:
  "cache (logger lvl msg d s) = cache s"
  "queryCache (logger lvl msg d s) = queryCache s"
  "isCacheEnabled (logger lvl msg d s) = isCacheEnabled s"
  "defaultTTL (logger lvl msg d s) = defaultTTL s"
  "gateway_calls (logger lvl msg d s) = gateway_calls s"
  "logs (logger lvl msg d s) = logs s @ [Log lvl msg ''database'' d]"
  by (simp_all add: logger_def)

lemma setCache_enabled:
  "isCacheEnabled s \<Longrightarrow>
   cache (setCache s now key v (Some ttl) tags) =
     AList.update key \<lparr>entry_data = v, entry_expiresAt = now + ttl * 1000, entry_tags = tags\<rparr> (cache s)
   \<and> isCacheEnabled (setCache s now key v (Some ttl) tags)
   \<and> defaultTTL (setCache s now key v (Some ttl) tags) = defaultTTL s
   \<and> gateway_calls (setCache s now key v (Some ttl) tags) = gateway_calls s"
  by (simp add: setCache_def Let_def)

lemma setCache_lookup:
  "isCacheEnabled s \<Longrightarrow>
   map_of (cache (setCache s now key v (Some ttl) tags)) key =
     Some \<lparr>entry_data = v, entry_expiresAt = now + ttl * 1000, entry_tags = tags\<rparr>"
  by (simp add: setCache_enabled AList.update_conv')

text \<open>
  The outcomes of a lookup of an entry that is in the map while caching is
  enabled: served, when it has not expired and both its timestamps can be rendered;
  thrown, when it has not expired and one of them cannot; missed and deleted, when it
  has expired.
\<close>

lemma getFromCache_hit:
  "isCacheEnabled s \<Longrightarrow> map_of (cache s) key = Some e \<Longrightarrow> now < entry_expiresAt e \<Longrightarrow>
   valid_time_value (entry_expiresAt e - defaultTTL s * 1000) \<Longrightarrow>
   valid_time_value (entry_expiresAt e) \<Longrightarrow>
   getFromCache s now key =
     (Inr (Some \<lparr>data = entry_data e, error = None, fromCache = True,
                 cachedAt = Some (iso_string (entry_expiresAt e - defaultTTL s * 1000)),
                 expiresAt = Some (iso_string (entry_expiresAt e))\<rparr>), s)"
  by (simp add: getFromCache_def isCacheValid_def Date_toISOString_def)

lemma getFromCache_throws:
  "isCacheEnabled s \<Longrightarrow> map_of (cache s) key = Some e \<Longrightarrow> now < entry_expiresAt e \<Longrightarrow>
   \<not> (valid_time_value (entry_expiresAt e - defaultTTL s * 1000)
      \<and> valid_time_value (entry_expiresAt e)) \<Longrightarrow>
   getFromCache s now key = (Inl (ErrorInstance ''Invalid time value''), s)"
  by (auto simp: getFromCache_def isCacheValid_def Date_toISOString_def)

lemma getFromCache_expired:
  "isCacheEnabled s \<Longrightarrow> map_of (cache s) key = Some e \<Longrightarrow> \<not> now < entry_expiresAt e \<Longrightarrow>
   getFromCache s now key = (Inr None, s\<lparr>cache := AList.delete key (cache s)\<rparr>)"
  by (simp add: getFromCache_def isCacheValid_def)

lemma getFromCache_absent:
  "isCacheEnabled s \<Longrightarrow> map_of (cache s) key = None \<Longrightarrow>
   getFromCache s now key = (Inr None, s\<lparr>cache := AList.delete key (cache s)\<rparr>)"
  by (simp add: getFromCache_def)

lemma getFromCache_disabled:
  "\<not> isCacheEnabled s \<Longrightarrow> getFromCache s now key = (Inr None, s)"
  by (simp add: getFromCache_def)

lemma new_service_misses:
  "fst (getFromCache new_DatabaseService now key) = Inr None"
  by (simp add: getFromCache_def new_DatabaseService_def)

text \<open>
  The outcome of a lookup depends on the map, the switch and the default time-to-live
  alone.
\<close>

lemma getFromCache_outcome_cong:
  "map_of (cache s') key = map_of (cache s) key \<Longrightarrow> isCacheEnabled s' = isCacheEnabled s \<Longrightarrow>
   defaultTTL s' = defaultTTL s \<Longrightarrow>
   fst (getFromCache s' now key) = fst (getFromCache s now key)"
  by (simp add: getFromCache_def isCacheValid_def split: option.splits sum.splits)

lemma list_ex_tags:
  "list_ex (\<lambda>tag. tag \<in> set tags) (entry_tags entry) = tags_intersect tags entry"
  by (auto simp: list_ex_iff tags_intersect_def)

text \<open>
  The loop deletes the keys of the visited entries that intersect, and counts them;
  this holds for any list of entries to visit and any map.
\<close>

lemma invalidate_loop_filter:
  "invalidate_loop tags xs (c, n) =
     (filter (\<lambda>(k, e). k \<notin> fst ` set (filter (\<lambda>(k, e). tags_intersect tags e) xs)) c,
      n + length (filter (\<lambda>(k, e). tags_intersect tags e) xs))"
proof (induction xs arbitrary: c n)
  case Nil
  then show ?case by simp
next
  case (Cons x xs)
  obtain key entry where x: "x = (key, entry)" by (cases x)
  show ?case
  proof (cases "tags_intersect tags entry")
    case True
    have "filter (\<lambda>(k, e). k \<notin> fst ` set (filter (\<lambda>(k, e). tags_intersect tags e) xs))
            (AList.delete key c) =
          filter (\<lambda>(k, e). k \<notin> fst ` set (filter (\<lambda>(k, e). tags_intersect tags e) (x # xs))) c"
      using True x by (auto simp: AList.delete_eq intro!: filter_cong)
    then show ?thesis
      using True x Cons.IH [of "AList.delete key c" "Suc n"] by (simp add: list_ex_tags)
  next
    case False
    then show ?thesis
      using x Cons.IH [of c n] by (simp add: list_ex_tags)
  qed
qed

text \<open>On a map, where every key occurs once, that is a filter on the entries themselves.\<close>

lemma invalidate_loop_distinct:
  assumes "distinct (map fst c)"
  shows "invalidate_loop tags c (c, 0) =
           (filter (\<lambda>(k, e). \<not> tags_intersect tags e) c,
            length (filter (\<lambda>(k, e). tags_intersect tags e) c))"
proof -
  have "k \<in> fst ` set (filter (\<lambda>(k, e). tags_intersect tags e) c) \<longleftrightarrow> tags_intersect tags e"
    if "(k, e) \<in> set c" for k e
  proof
    assume "k \<in> fst ` set (filter (\<lambda>(k, e). tags_intersect tags e) c)"
    then obtain e' where e': "(k, e') \<in> set c" "tags_intersect tags e'" by auto
    from assms that e'(1) have "e' = e" by (meson eq_key_imp_eq_value)
    with e'(2) show "tags_intersect tags e" by simp
  next
    assume "tags_intersect tags e"
    with that show "k \<in> fst ` set (filter (\<lambda>(k, e). tags_intersect tags e) c)" by force
  qed
  then have "filter (\<lambda>(k, e). k \<notin> fst ` set (filter (\<lambda>(k, e). tags_intersect tags e) c)) c =
             filter (\<lambda>(k, e). \<not> tags_intersect tags e) c"
    by (auto intro!: filter_cong)
  then show ?thesis by (simp add: invalidate_loop_filter)
qed

lemma map_of_filter_distinct:
  "distinct (map fst c) \<Longrightarrow> map_of c k = Some e \<Longrightarrow>
   map_of (filter (\<lambda>(k, e). P e) c) k = (if P e then Some e else None)"
proof (induction c)
  case Nil
  then show ?case by simp
next
  case (Cons x c)
  obtain k' e' where x: "x = (k', e')" by (cases x)
  show ?case
  proof (cases "k' = k")
    case True
    with Cons.prems x have "e' = e" and "k \<notin> fst ` set c" by auto
    then have "map_of (filter (\<lambda>(k, e). P e) c) k = None"
      by (auto simp: map_of_eq_None_iff)
    with True x \<open>e' = e\<close> show ?thesis by simp
  next
    case False
    with Cons x show ?thesis by simp
  qed
qed

text \<open>
  The operations of the store keep the map a map: from one pair for each key they lead
  to one pair for each key.
\<close>

lemma map_keys_distinct:
  assumes "distinct (map fst (cache s))"
  shows "distinct (map fst (cache (setCache s now key d ttl_arg tags)))"
    and "distinct (map fst (cache (snd (getFromCache s now key))))"
    and "distinct (map fst (cache (invalidateCacheByTags s tags)))"
proof -
  show "distinct (map fst (cache (setCache s now key d ttl_arg tags)))"
    using assms by (simp add: setCache_def Let_def AList.distinct_update)
  show "distinct (map fst (cache (snd (getFromCache s now key))))"
    using assms
    by (auto simp: getFromCache_def AList.distinct_delete split: option.splits sum.splits)
  show "distinct (map fst (cache (invalidateCacheByTags s tags)))"
    using assms
    by (simp add: invalidateCacheByTags_def invalidate_loop_distinct distinct_map_filter)
qed

text \<open>Renderings of the time values of the examples.\<close>

lemma iso_string_examples:
  "iso_string (- 295000) = ''1969-12-31T23:55:05.000Z''"
  "iso_string 5000 = ''1970-01-01T00:00:05.000Z''"
  "iso_string 6000 = ''1970-01-01T00:00:06.000Z''"
  "iso_string 6010 = ''1970-01-01T00:00:06.010Z''"
  "iso_string (- 294000) = ''1969-12-31T23:55:06.000Z''"
  "iso_string (- 293990) = ''1969-12-31T23:55:06.010Z''"
  "iso_string (- 54000) = ''1969-12-31T23:59:06.000Z''"
  by code_simp+

text \<open>
  What holds of the time-to-live: while caching is enabled, and as long as the expiry
  time and the expiry time less the default time-to-live are time values of a \<^verbatim>\<open>Date\<close>,
  an entry written at \<open>now\<close> is served at \<open>now'\<close> exactly when \<open>now'\<close> is before the expiry
  time; a read that finds it expired deletes it; and written with a time-to-live of 0
  it is missed at once.
\<close>

lemma ttl_expiry_in_date_range:
  assumes "isCacheEnabled s"
  shows "valid_time_value (now + ttl * 1000 - defaultTTL s * 1000) \<Longrightarrow>
         valid_time_value (now + ttl * 1000) \<Longrightarrow>
         fst (getFromCache (setCache s now key v (Some ttl) tags) now' key) =
           (if now' < now + ttl * 1000
            then Inr (Some \<lparr>data = v, error = None, fromCache = True,
                             cachedAt = Some (iso_string (now + ttl * 1000 - defaultTTL s * 1000)),
                             expiresAt = Some (iso_string (now + ttl * 1000))\<rparr>)
            else Inr None)"
    and "\<not> now' < now + ttl * 1000 \<Longrightarrow>
         fst (getFromCache (setCache s now key v (Some ttl) tags) now' key) = Inr None \<and>
         map_of (cache (snd (getFromCache (setCache s now key v (Some ttl) tags) now' key))) key = None"
    and "fst (getFromCache (setCache s now key v (Some 0) tags) now key) = Inr None"
proof -
  have en: "isCacheEnabled (setCache s now key v (Some t) tags)" for t
    using assms by (simp add: setCache_enabled)
  note look = setCache_lookup [OF assms, of now key v _ tags]
  have dt: "defaultTTL (setCache s now key v (Some t) tags) = defaultTTL s" for t
    using assms by (simp add: setCache_enabled)
  have miss: "\<not> now' < now + ttl * 1000 \<Longrightarrow>
      getFromCache (setCache s now key v (Some ttl) tags) now' key =
        (Inr None, (setCache s now key v (Some ttl) tags)
                 \<lparr>cache := AList.delete key (cache (setCache s now key v (Some ttl) tags))\<rparr>)"
    using getFromCache_expired [OF en look, of now' ttl] by simp
  show "fst (getFromCache (setCache s now key v (Some ttl) tags) now' key) =
           (if now' < now + ttl * 1000
            then Inr (Some \<lparr>data = v, error = None, fromCache = True,
                             cachedAt = Some (iso_string (now + ttl * 1000 - defaultTTL s * 1000)),
                             expiresAt = Some (iso_string (now + ttl * 1000))\<rparr>)
            else Inr None)"
    if "valid_time_value (now + ttl * 1000 - defaultTTL s * 1000)"
      and "valid_time_value (now + ttl * 1000)"
  proof (cases "now' < now + ttl * 1000")
    case True
    with getFromCache_hit [OF en look, of now' ttl] that show ?thesis by (simp add: dt)
  next
    case False
    with miss show ?thesis by simp
  qed
  show "fst (getFromCache (setCache s now key v (Some ttl) tags) now' key) = Inr None \<and>
         map_of (cache (snd (getFromCache (setCache s now key v (Some ttl) tags) now' key))) key = None"
    if "\<not> now' < now + ttl * 1000"
    using miss [OF that] by (simp add: AList.delete_conv')
  show "fst (getFromCache (setCache s now key v (Some 0) tags) now key) = Inr None"
    using getFromCache_expired [OF en look, of now 0] by simp
qed


section \<open>Facts about the read operations\<close>

lemma getFromCache_miss_state:
  assumes "fst (getFromCache s now key) = Inr None"
  shows "isCacheEnabled (snd (getFromCache s now key)) = isCacheEnabled s"
    and "defaultTTL (snd (getFromCache s now key)) = defaultTTL s"
    and "gateway_calls (snd (getFromCache s now key)) = gateway_calls s"
    and "logs (snd (getFromCache s now key)) = logs s"
    and "fst (getFromCache (snd (getFromCache s now key)) now' key) = Inr None"
    and "getFromCache (snd (getFromCache s now key)) now' key =
           (Inr None, snd (getFromCache s now key))"
    and "isCacheEnabled s \<Longrightarrow> map_of (cache (snd (getFromCache s now key))) key = None"
    and "cache (snd (getFromCache s now key)) =
           (if isCacheEnabled s then AList.delete key (cache s) else cache s)"
  using assms
  by (auto simp: getFromCache_def isCacheValid_def AList.delete_conv' AList.delete_idem
           split: if_splits option.splits sum.splits)

lemma setCache_fields:
  "isCacheEnabled (setCache s now key v ttl_arg tags) = isCacheEnabled s"
  "defaultTTL (setCache s now key v ttl_arg tags) = defaultTTL s"
  "gateway_calls (setCache s now key v ttl_arg tags) = gateway_calls s"
  by (simp_all add: setCache_def Let_def)

lemma setCache_lookup_any:
  "isCacheEnabled s \<Longrightarrow>
   map_of (cache (setCache s now key v ttl_arg tags)) key =
     Some \<lparr>entry_data = v,
           entry_expiresAt = now + (case ttl_arg of None \<Rightarrow> defaultTTL s | Some t \<Rightarrow> t) * 1000,
           entry_tags = tags\<rparr>"
  by (simp add: setCache_def Let_def AList.update_conv')

lemma setCache_disabled: "\<not> isCacheEnabled s \<Longrightarrow> setCache s now key v ttl_arg tags = s"
  by (simp add: setCache_def)

lemma cache_result_fields:
  "isCacheEnabled (cache_result s now key d options) = isCacheEnabled s"
  "defaultTTL (cache_result s now key d options) = defaultTTL s"
  "gateway_calls (cache_result s now key d options) = gateway_calls s"
  by (simp_all add: cache_result_def setCache_fields split: option.splits)

lemma cache_result_lookup:
  "isCacheEnabled s \<Longrightarrow> opt_cache options = Some config \<Longrightarrow>
   map_of (cache (cache_result s now key d options)) key =
     Some \<lparr>entry_data = d, entry_expiresAt = now + directive_ttl s config * 1000,
           entry_tags = (case config_tags config of None \<Rightarrow> [] | Some tags \<Rightarrow> tags)\<rparr>"
  by (simp add: cache_result_def setCache_lookup_any directive_ttl_def)

lemma select_on_hit:
  "getFromCache s now (generateCacheKey table OpSelect (options_json options)) = (Inr (Some r), s') \<Longrightarrow>
   select gw s now now_set table options = (Inr r, s')"
  by (simp add: select_def)

lemma select_on_throw:
  "getFromCache s now (generateCacheKey table OpSelect (options_json options)) = (Inl e, s') \<Longrightarrow>
   select gw s now now_set table options = (Inl e, s')"
  by (simp add: select_def)

lemma select_on_miss:
  assumes "fst (getFromCache s now (generateCacheKey table OpSelect (options_json options))) = Inr None"
  shows "select gw s now now_set table options =
     (let key = generateCacheKey table OpSelect (options_json options);
          s2 = (snd (getFromCache s now key))\<lparr>gateway_calls := gateway_calls s @ [select_query table options]\<rparr>
      in case gw (gateway_calls s) (select_query table options) of
           Rejected e \<Rightarrow>
             (Inr (failure (thrown_message e)),
              logger Error (''Database select exception for table '' @ table) (ThrownData e) s2)
         | Resolved d (Some err) \<Rightarrow>
             (Inr (failure (message err)),
              logger Error (''Database select error for table '' @ table) (ErrorData err) s2)
         | Resolved d None \<Rightarrow>
             (Inr (success d),
              logger Debug (''Database select completed for table '' @ table)
                (Data (JObj [(''rowCount'', JNum (js_length d)),
                             (''cached'', JBool (opt_cache options \<noteq> None))]))
                (cache_result s2 now_set key d options)))"
proof -
  obtain s1 where g: "getFromCache s now (generateCacheKey table OpSelect (options_json options)) = (Inr None, s1)"
    using assms by (cases "getFromCache s now (generateCacheKey table OpSelect (options_json options))") auto
  have calls: "gateway_calls s1 = gateway_calls s"
    using getFromCache_miss_state(3) [OF assms] g by simp
  show ?thesis
    by (simp add: select_def g send_def calls Let_def split: gw_response.splits option.splits)
qed

lemma rawQuery_on_hit:
  "getFromCache s now (generateCacheKey ''raw'' OpSelect (raw_params query params)) = (Inr (Some r), s') \<Longrightarrow>
   rawQuery gw s now now_set query params options = (Inr r, s')"
  by (simp add: rawQuery_def)

lemma rawQuery_on_throw:
  "getFromCache s now (generateCacheKey ''raw'' OpSelect (raw_params query params)) = (Inl e, s') \<Longrightarrow>
   rawQuery gw s now now_set query params options = (Inl e, s')"
  by (simp add: rawQuery_def)

lemma rawQuery_on_miss:
  assumes "fst (getFromCache s now (generateCacheKey ''raw'' OpSelect (raw_params query params))) = Inr None"
  shows "rawQuery gw s now now_set query params options =
     (let key = generateCacheKey ''raw'' OpSelect (raw_params query params);
          s2 = (snd (getFromCache s now key))\<lparr>gateway_calls := gateway_calls s @
                 [[Call_rpc ''execute_sql'' (raw_params query params)]]\<rparr>
      in case gw (gateway_calls s) [Call_rpc ''execute_sql'' (raw_params query params)] of
           Rejected e \<Rightarrow>
             (Inr (failure (thrown_message e)),
              logger Error ''Database raw query exception'' (ThrownData e) s2)
         | Resolved d (Some err) \<Rightarrow>
             (Inr (failure (message err)),
              logger Error ''Database raw query error'' (ErrorData err) s2)
         | Resolved d None \<Rightarrow>
             (Inr (success d),
              logger Debug ''Database raw query completed''
                (Data (JObj [(''rowCount'', JNum (js_length d)),
                             (''cached'', JBool (opt_cache options \<noteq> None))]))
                (cache_result s2 now_set key d options)))"
proof -
  obtain s1 where g: "getFromCache s now (generateCacheKey ''raw'' OpSelect (raw_params query params)) = (Inr None, s1)"
    using assms by (cases "getFromCache s now (generateCacheKey ''raw'' OpSelect (raw_params query params))") auto
  have calls: "gateway_calls s1 = gateway_calls s"
    using getFromCache_miss_state(3) [OF assms] g by simp
  show ?thesis
    by (simp add: rawQuery_def g send_def calls Let_def split: gw_response.splits option.splits)
qed

text \<open>
  The state after a read that missed, got rows and cached them under its directive, and
  what a lookup of the key gives in it.
\<close>

lemma populated_state:
  assumes en: "isCacheEnabled s"
    and miss: "fst (getFromCache s t1 key) = Inr None"
    and dir: "opt_cache options = Some config"
  shows "isCacheEnabled
           (logger lvl msg dat
              (cache_result ((snd (getFromCache s t1 key))\<lparr>gateway_calls := calls\<rparr>) t2 key d options))"
    and "defaultTTL
           (logger lvl msg dat
              (cache_result ((snd (getFromCache s t1 key))\<lparr>gateway_calls := calls\<rparr>) t2 key d options)) =
         defaultTTL s"
    and "map_of (cache
           (logger lvl msg dat
              (cache_result ((snd (getFromCache s t1 key))\<lparr>gateway_calls := calls\<rparr>) t2 key d options)))
           key =
         Some \<lparr>entry_data = d, entry_expiresAt = t2 + directive_ttl s config * 1000,
               entry_tags = (case config_tags config of None \<Rightarrow> [] | Some tags \<Rightarrow> tags)\<rparr>"
proof -
  let ?s2 = "(snd (getFromCache s t1 key))\<lparr>gateway_calls := calls\<rparr>"
  let ?s' = "logger lvl msg dat (cache_result ?s2 t2 key d options)"
  have en2: "isCacheEnabled ?s2"
    using getFromCache_miss_state(1) [OF miss] en by simp
  have dt2: "defaultTTL ?s2 = defaultTTL s"
    using getFromCache_miss_state(2) [OF miss] by simp
  have ttl2: "directive_ttl ?s2 config = directive_ttl s config"
    using dt2 by (simp add: directive_ttl_def split: option.splits)
  show "isCacheEnabled ?s'"
    using en2 by (simp add: cache_result_fields)
  show "defaultTTL ?s' = defaultTTL s"
    using dt2 by (simp add: cache_result_fields)
  show "map_of (cache ?s') key =
     Some \<lparr>entry_data = d, entry_expiresAt = t2 + directive_ttl s config * 1000,
           entry_tags = (case config_tags config of None \<Rightarrow> [] | Some tags \<Rightarrow> tags)\<rparr>"
    using cache_result_lookup [OF en2 dir, of t2 key d] ttl2 by simp
qed

lemma populated_then_hit:
  assumes en: "isCacheEnabled s"
    and miss: "fst (getFromCache s t1 key) = Inr None"
    and dir: "opt_cache options = Some config"
    and live: "t3 < t2 + directive_ttl s config * 1000"
    and v1: "valid_time_value (t2 + directive_ttl s config * 1000 - defaultTTL s * 1000)"
    and v2: "valid_time_value (t2 + directive_ttl s config * 1000)"
  shows "getFromCache
           (logger lvl msg dat
              (cache_result ((snd (getFromCache s t1 key))\<lparr>gateway_calls := calls\<rparr>) t2 key d options))
           t3 key =
         (Inr (Some \<lparr>data = d, error = None, fromCache = True,
                cachedAt = Some (iso_string (t2 + directive_ttl s config * 1000 - defaultTTL s * 1000)),
                expiresAt = Some (iso_string (t2 + directive_ttl s config * 1000))\<rparr>),
          logger lvl msg dat
              (cache_result ((snd (getFromCache s t1 key))\<lparr>gateway_calls := calls\<rparr>) t2 key d options))"
proof -
  note st = populated_state [OF en miss dir, where lvl = lvl and msg = msg and dat = dat
      and calls = calls and ?t2.0 = t2 and d = d]
  show ?thesis
    using getFromCache_hit [OF st(1) st(3), of t3] live v1 v2 st(2) by simp
qed


lemma select_miss_calls:
  assumes "fst (getFromCache s now (generateCacheKey table OpSelect (options_json options))) = Inr None"
  shows "gateway_calls (snd (select gw s now now_set table options)) =
           gateway_calls s @ [select_query table options]"
  by (simp add: select_on_miss [OF assms] Let_def cache_result_fields
           split: gw_response.splits option.splits)




text \<open>
  The service after the read that is cached for 8640000000001 seconds: the rows came
  from the gateway with one request, and the map holds them under the key of the read
  with an expiry time past those of a \<^verbatim>\<open>Date\<close>.
\<close>

lemma far_entry_facts:
  "fst (select rows_gateway new_DatabaseService 1000 1000 ''invoices'' far_read) =
     Inr \<lparr>data = JArr [JObj [(''id'', JNum 1)]], error = None, fromCache = False,
          cachedAt = None, expiresAt = None\<rparr>"
  "isCacheEnabled far_entry_stored"
  "defaultTTL far_entry_stored = 300"
  "gateway_calls far_entry_stored = [select_query ''invoices'' far_read]"
  "map_of (cache far_entry_stored) (generateCacheKey ''invoices'' OpSelect (options_json far_read)) =
     Some \<lparr>entry_data = JArr [JObj [(''id'', JNum 1)]], entry_expiresAt = 8640000000002000,
           entry_tags = [''invoices'']\<rparr>"
proof -
  let ?key = "generateCacheKey ''invoices'' OpSelect (options_json far_read)"
  have en: "isCacheEnabled new_DatabaseService" and dt: "defaultTTL new_DatabaseService = 300"
    and calls: "gateway_calls new_DatabaseService = []"
    by (simp_all add: new_DatabaseService_def)
  have dir: "opt_cache far_read = Some [Ttl 8640000000001, Key ''all-invoices'', Tags [''invoices'']]"
    by (simp add: far_read_def)
  have ttl: "directive_ttl new_DatabaseService [Ttl 8640000000001, Key ''all-invoices'', Tags [''invoices'']] =
      8640000000001"
    by (simp add: directive_ttl_def)
  note miss = new_service_misses [of 1000 ?key]
  show "fst (select rows_gateway new_DatabaseService 1000 1000 ''invoices'' far_read) =
     Inr \<lparr>data = JArr [JObj [(''id'', JNum 1)]], error = None, fromCache = False,
          cachedAt = None, expiresAt = None\<rparr>"
    by (simp add: select_on_miss [OF miss] Let_def rows_gateway_def success_def)
  have st: "far_entry_stored =
      logger Debug (''Database select completed for table '' @ ''invoices'')
        (Data (JObj [(''rowCount'', JNum (js_length (JArr [JObj [(''id'', JNum 1)]]))),
                     (''cached'', JBool (opt_cache far_read \<noteq> None))]))
        (cache_result ((snd (getFromCache new_DatabaseService 1000 ?key))
             \<lparr>gateway_calls := gateway_calls new_DatabaseService @ [select_query ''invoices'' far_read]\<rparr>)
           1000 ?key (JArr [JObj [(''id'', JNum 1)]]) far_read)"
    unfolding far_entry_stored_def
    by (simp add: select_on_miss [OF miss] Let_def rows_gateway_def)
  show "isCacheEnabled far_entry_stored"
    unfolding st by (rule populated_state(1) [OF en miss dir])
  show "defaultTTL far_entry_stored = 300"
    unfolding st using populated_state(2) [OF en miss dir] dt by simp
  show "gateway_calls far_entry_stored = [select_query ''invoices'' far_read]"
    unfolding far_entry_stored_def by (simp add: select_miss_calls [OF miss] calls)
  show "map_of (cache far_entry_stored) ?key =
     Some \<lparr>entry_data = JArr [JObj [(''id'', JNum 1)]], entry_expiresAt = 8640000000002000,
           entry_tags = [''invoices'']\<rparr>"
    unfolding st
    using populated_state(3) [OF en miss dir, where ?t2.0 = 1000 and d = "JArr [JObj [(''id'', JNum 1)]]"] ttl
    by simp
qed

section \<open>Claims about the cache store\<close>

text \<open>
  Claim C3 (time-to-live and lazy eviction) does not hold of the code. Caching is
  enabled and \<^verbatim>\<open>setCache\<close> stores an entry at time 1000 with a time-to-live of 8640000000001
  seconds, so it expires at 8640000000002000. At time 2000 the entry has not expired,
  \<^verbatim>\<open>isCacheValid\<close> is true of it, and by the claim the lookup returns the cached value. But
  \<^verbatim>\<open>getFromCache\<close> renders the expiry time with \<^verbatim>\<open>toISOString\<close>, the time value is past those
  of a \<^verbatim>\<open>Date\<close>, and the lookup throws a \<^verbatim>\<open>RangeError\<close> in place of returning the value. The
  entry stays in the map. The same is seen from outside the service: a \<^verbatim>\<open>select\<close> with the
  cache directive \<^verbatim>\<open>{ ttl: 8640000000001, key: 'all-invoices', tags: ['invoices'] }\<close> gets
  its rows from the gateway at time 1000, and the same \<^verbatim>\<open>select\<close> at time 2000 throws.
\<close>

theorem ttl_hit_throws_beyond_date_range:
  "isCacheEnabled new_DatabaseService
   \<and> map_of (cache (setCache new_DatabaseService 1000 ''inv:1'' (JObj [(''id'', JNum 1)])
                      (Some 8640000000001) [''invoices''])) ''inv:1'' =
       Some \<lparr>entry_data = JObj [(''id'', JNum 1)], entry_expiresAt = 8640000000002000,
             entry_tags = [''invoices'']\<rparr>
   \<and> isCacheValid (setCache new_DatabaseService 1000 ''inv:1'' (JObj [(''id'', JNum 1)])
                     (Some 8640000000001) [''invoices'']) 2000 ''inv:1''
   \<and> getFromCache (setCache new_DatabaseService 1000 ''inv:1'' (JObj [(''id'', JNum 1)])
                     (Some 8640000000001) [''invoices'']) 2000 ''inv:1'' =
       (Inl (ErrorInstance ''Invalid time value''),
        setCache new_DatabaseService 1000 ''inv:1'' (JObj [(''id'', JNum 1)])
          (Some 8640000000001) [''invoices''])
   \<and> select rows_gateway new_DatabaseService 1000 1000 ''invoices'' far_read =
       (Inr \<lparr>data = JArr [JObj [(''id'', JNum 1)]], error = None, fromCache = False,
             cachedAt = None, expiresAt = None\<rparr>, far_entry_stored)
   \<and> select rows_gateway far_entry_stored 2000 2000 ''invoices'' far_read =
       (Inl (ErrorInstance ''Invalid time value''), far_entry_stored)"
proof -
  let ?s = "setCache new_DatabaseService 1000 ''inv:1'' (JObj [(''id'', JNum 1)])
              (Some 8640000000001) [''invoices'']"
  let ?e = "\<lparr>entry_data = JObj [(''id'', JNum 1)], entry_expiresAt = 8640000000002000,
             entry_tags = [''invoices'']\<rparr>"
  have en0: "isCacheEnabled new_DatabaseService" by (simp add: new_DatabaseService_def)
  have en: "isCacheEnabled ?s" using en0 by (simp add: setCache_enabled)
  have look: "map_of (cache ?s) ''inv:1'' = Some ?e"
    using setCache_lookup [OF en0, of 1000 "''inv:1''" "JObj [(''id'', JNum 1)]" 8640000000001 "[''invoices'']"]
    by simp
  have valid: "isCacheValid ?s 2000 ''inv:1''"
    by (simp add: isCacheValid_def look)
  have thrown: "getFromCache ?s 2000 ''inv:1'' = (Inl (ErrorInstance ''Invalid time value''), ?s)"
    using getFromCache_throws [OF en look, of 2000] by (simp add: valid_time_value_def)
  have first: "select rows_gateway new_DatabaseService 1000 1000 ''invoices'' far_read =
       (Inr \<lparr>data = JArr [JObj [(''id'', JNum 1)]], error = None, fromCache = False,
             cachedAt = None, expiresAt = None\<rparr>, far_entry_stored)"
    using far_entry_facts(1) by (simp add: far_entry_stored_def prod_eq_iff)
  have "getFromCache far_entry_stored 2000 (generateCacheKey ''invoices'' OpSelect (options_json far_read)) =
      (Inl (ErrorInstance ''Invalid time value''), far_entry_stored)"
    using getFromCache_throws [OF far_entry_facts(2) far_entry_facts(5), of 2000]
    by (simp add: valid_time_value_def)
  then have second: "select rows_gateway far_entry_stored 2000 2000 ''invoices'' far_read =
       (Inl (ErrorInstance ''Invalid time value''), far_entry_stored)"
    by (rule select_on_throw)
  from en0 look valid thrown first second show ?thesis by blast
qed

text \<open>
  Claim C5 as stated fails: it holds for every tag set without a condition on the
  service. With caching disabled the entry tagged \<^verbatim>\<open>invoices\<close> stays in the map after
  \<^verbatim>\<open>invalidateCacheByTags(['invoices'])\<close>, no count is reported anywhere, and the entry is
  served again once caching is enabled.
\<close>

theorem invalidate_by_tags_counterexample:
  "tags_intersect [''invoices''] invoice_entry
   \<and> map_of (cache two_entries_disabled) ''inv:1'' = Some invoice_entry
   \<and> map_of (cache (invalidateCacheByTags two_entries_disabled [''invoices''])) ''inv:1'' = Some invoice_entry
   \<and> logs (invalidateCacheByTags two_entries_disabled [''invoices'']) = []
   \<and> fst (getFromCache
        (setCacheEnabled (invalidateCacheByTags two_entries_disabled [''invoices'']) True) 10 ''inv:1'') =
       Inr (Some \<lparr>data = JObj [(''id'', JNum 1)], error = None, fromCache = True,
                   cachedAt = Some ''1969-12-31T23:55:05.000Z'',
                   expiresAt = Some ''1970-01-01T00:00:05.000Z''\<rparr>)"
proof -
  let ?s = "setCacheEnabled (invalidateCacheByTags two_entries_disabled [''invoices'']) True"
  have en: "isCacheEnabled ?s" by (simp add: setCacheEnabled_def)
  have look: "map_of (cache ?s) ''inv:1'' = Some invoice_entry"
    by (simp add: setCacheEnabled_def invalidateCacheByTags_def two_entries_disabled_def two_entries_def)
  have dt: "defaultTTL ?s = 300"
    by (simp add: setCacheEnabled_def invalidateCacheByTags_def two_entries_disabled_def two_entries_def
        new_DatabaseService_def)
  have got: "fst (getFromCache ?s 10 ''inv:1'') =
       Inr (Some \<lparr>data = JObj [(''id'', JNum 1)], error = None, fromCache = True,
                   cachedAt = Some ''1969-12-31T23:55:05.000Z'',
                   expiresAt = Some ''1970-01-01T00:00:05.000Z''\<rparr>)"
    using getFromCache_hit [OF en look, of 10]
    by (simp add: dt invoice_entry_def valid_time_value_def iso_string_examples)
  have rest: "tags_intersect [''invoices''] invoice_entry
   \<and> map_of (cache two_entries_disabled) ''inv:1'' = Some invoice_entry
   \<and> map_of (cache (invalidateCacheByTags two_entries_disabled [''invoices''])) ''inv:1'' = Some invoice_entry
   \<and> logs (invalidateCacheByTags two_entries_disabled [''invoices'']) = []"
    by (simp add: tags_intersect_def invoice_entry_def two_entries_disabled_def two_entries_def
        new_DatabaseService_def invalidateCacheByTags_def)
  from rest got show ?thesis by blast
qed

text \<open>
  Claim C5, amended. While caching is enabled, \<^verbatim>\<open>invalidateCacheByTags(T)\<close> removes from the
  map exactly the entries whose tags intersect \<open>T\<close> and keeps the others in place; a read
  of a removed key misses, a read of any other key, also of one without tags, gives
  what it gave before. The function returns nothing: the number of entries removed is
  the \<^verbatim>\<open>invalidatedCount\<close> handed to the logger. While caching is disabled the call
  removes nothing: it leaves the whole state as it is.
\<close>

theorem invalidate_by_tags_enabled:
  assumes "distinct (map fst (cache s))"
  shows "(isCacheEnabled s \<longrightarrow>
          cache (invalidateCacheByTags s T) = filter (\<lambda>(k, e). \<not> tags_intersect T e) (cache s)
        \<and> logs (invalidateCacheByTags s T) =
            logs s @ [Log Info (''Cache invalidated for tags: '' @ join '', '' T) ''database''
              (Data (JObj [(''invalidatedCount'',
                 JNum (int (length (filter (\<lambda>(k, e). tags_intersect T e) (cache s)))))]))]
        \<and> (\<forall>key e now. map_of (cache s) key = Some e \<longrightarrow>
              fst (getFromCache (invalidateCacheByTags s T) now key) =
                (if tags_intersect T e then Inr None else fst (getFromCache s now key))))
       \<and> (\<not> isCacheEnabled s \<longrightarrow> invalidateCacheByTags s T = s)"
proof (intro conjI impI)
  assume "\<not> isCacheEnabled s"
  then show "invalidateCacheByTags s T = s" by (simp add: invalidateCacheByTags_def)
next
  let ?s' = "invalidateCacheByTags s T"
  assume on: "isCacheEnabled s"
  show c: "cache ?s' = filter (\<lambda>(k, e). \<not> tags_intersect T e) (cache s)"
    using assms on by (simp add: invalidateCacheByTags_def invalidate_loop_distinct)
  show "logs ?s' =
           logs s @ [Log Info (''Cache invalidated for tags: '' @ join '', '' T) ''database''
             (Data (JObj [(''invalidatedCount'',
                JNum (int (length (filter (\<lambda>(k, e). tags_intersect T e) (cache s)))))]))]"
    using assms on by (simp add: invalidateCacheByTags_def invalidate_loop_distinct)
  have en: "isCacheEnabled ?s'" and dt: "defaultTTL ?s' = defaultTTL s"
    using assms on by (simp_all add: invalidateCacheByTags_def invalidate_loop_distinct)
  have g: "fst (getFromCache ?s' now key) =
             (if tags_intersect T e then Inr None else fst (getFromCache s now key))"
    if look: "map_of (cache s) key = Some e" for key e now
  proof -
    have look': "map_of (cache ?s') key = (if \<not> tags_intersect T e then Some e else None)"
      unfolding c using map_of_filter_distinct [OF assms look, of "\<lambda>e. \<not> tags_intersect T e"] .
    show ?thesis
    proof (cases "tags_intersect T e")
      case True
      with look' have "map_of (cache ?s') key = None" by simp
      with en True show ?thesis by (simp add: getFromCache_absent)
    next
      case False
      with look' look have "map_of (cache ?s') key = map_of (cache s) key" by simp
      from getFromCache_outcome_cong [OF this, of now] en on dt False show ?thesis by simp
    qed
  qed
  then show "\<forall>key e now. map_of (cache s) key = Some e \<longrightarrow>
              fst (getFromCache ?s' now key) =
                (if tags_intersect T e then Inr None else fst (getFromCache s now key))"
    by blast
qed

text \<open>
  Witness for C5: invalidating \<^verbatim>\<open>invoices\<close> in the store of two entries removes the tagged
  entry, logs a count of 1 and leaves the entry without tags retrievable; in the same
  store with caching disabled it changes nothing.
\<close>

theorem invalidate_by_tags_enabled_witness:
  "isCacheEnabled two_entries \<and> distinct (map fst (cache two_entries))
   \<and> cache (invalidateCacheByTags two_entries [''invoices'']) = [(''cust:2'', untagged_entry)]
   \<and> logs (invalidateCacheByTags two_entries [''invoices'']) =
       [Log Info ''Cache invalidated for tags: invoices'' ''database''
          (Data (JObj [(''invalidatedCount'', JNum 1)]))]
   \<and> fst (getFromCache (invalidateCacheByTags two_entries [''invoices'']) 10 ''inv:1'') = Inr None
   \<and> fst (getFromCache (invalidateCacheByTags two_entries [''invoices'']) 10 ''cust:2'') =
       fst (getFromCache two_entries 10 ''cust:2'')
   \<and> fst (getFromCache two_entries 10 ''cust:2'') =
       Inr (Some \<lparr>data = JObj [(''id'', JNum 2)], error = None, fromCache = True,
                   cachedAt = Some ''1969-12-31T23:55:05.000Z'',
                   expiresAt = Some ''1970-01-01T00:00:05.000Z''\<rparr>)
   \<and> \<not> isCacheEnabled two_entries_disabled \<and> distinct (map fst (cache two_entries_disabled))
   \<and> invalidateCacheByTags two_entries_disabled [''invoices''] = two_entries_disabled"
proof -
  have en: "isCacheEnabled two_entries"
    by (simp add: two_entries_def new_DatabaseService_def)
  have di: "distinct (map fst (cache two_entries))"
    by (simp add: two_entries_def new_DatabaseService_def)
  have dis: "\<not> isCacheEnabled two_entries_disabled"
    by (simp add: two_entries_disabled_def)
  have di': "distinct (map fst (cache two_entries_disabled))"
    by (simp add: two_entries_disabled_def two_entries_def new_DatabaseService_def)
  have l1: "map_of (cache two_entries) ''inv:1'' = Some invoice_entry"
    by (simp add: two_entries_def)
  have l2: "map_of (cache two_entries) ''cust:2'' = Some untagged_entry"
    by (simp add: two_entries_def)
  have t1: "tags_intersect [''invoices''] invoice_entry"
    by (simp add: tags_intersect_def invoice_entry_def)
  have t2: "\<not> tags_intersect [''invoices''] untagged_entry"
    by (simp add: tags_intersect_def untagged_entry_def)
  have dt: "defaultTTL two_entries = 300"
    by (simp add: two_entries_def new_DatabaseService_def)
  have d: "fst (getFromCache two_entries 10 ''cust:2'') =
       Inr (Some \<lparr>data = JObj [(''id'', JNum 2)], error = None, fromCache = True,
                   cachedAt = Some ''1969-12-31T23:55:05.000Z'',
                   expiresAt = Some ''1970-01-01T00:00:05.000Z''\<rparr>)"
    using getFromCache_hit [OF en l2, of 10]
    by (simp add: dt untagged_entry_def valid_time_value_def iso_string_examples)
  note inst = invalidate_by_tags_enabled [OF di, of "[''invoices'']", THEN conjunct1, rule_format, OF en]
  from inst have c: "cache (invalidateCacheByTags two_entries [''invoices'']) = [(''cust:2'', untagged_entry)]"
    using t1 t2 by (simp add: two_entries_def)
  from inst have l: "logs (invalidateCacheByTags two_entries [''invoices'']) =
       [Log Info ''Cache invalidated for tags: invoices'' ''database''
          (Data (JObj [(''invalidatedCount'', JNum 1)]))]"
    using t1 t2 by (simp add: two_entries_def new_DatabaseService_def)
  from inst have g: "\<And>key e now. map_of (cache two_entries) key = Some e \<Longrightarrow>
             fst (getFromCache (invalidateCacheByTags two_entries [''invoices'']) now key) =
               (if tags_intersect [''invoices''] e then Inr None else fst (getFromCache two_entries now key))"
    by blast
  from g [OF l1, of 10] t1
  have g1: "fst (getFromCache (invalidateCacheByTags two_entries [''invoices'']) 10 ''inv:1'') = Inr None"
    by simp
  from g [OF l2, of 10] t2
  have g2: "fst (getFromCache (invalidateCacheByTags two_entries [''invoices'']) 10 ''cust:2'') =
       fst (getFromCache two_entries 10 ''cust:2'')"
    by simp
  from invalidate_by_tags_enabled [OF di', of "[''invoices'']", THEN conjunct2] dis
  have off: "invalidateCacheByTags two_entries_disabled [''invoices''] = two_entries_disabled"
    by blast
  from en di c l g1 g2 d dis di' off show ?thesis by blast
qed


text \<open>
  Claim C10 (the reported \<^verbatim>\<open>cachedAt\<close>). In every result that a lookup returns from the
  cache, \<^verbatim>\<open>cachedAt\<close> is the rendering of the entry's \<^verbatim>\<open>expiresAt\<close> minus the service's default
  time-to-live at the time of the read, in milliseconds, and not of the time of the
  write. So for an entry written at time \<open>t\<close> with time-to-live \<open>ttl\<close> and read when the
  default is \<open>d\<close>, the reported time is that of \<open>t + (ttl - d) * 1000\<close>: it is off the time
  of the write by the difference of the two, in milliseconds. Both hold of every result
  that is returned; and one is returned whenever caching is enabled, the entry has not
  expired and both its timestamps are time values of a \<^verbatim>\<open>Date\<close>.
\<close>

theorem cachedAt_from_defaultTTL:
  "(fst (getFromCache s now key) = Inr (Some r) \<longrightarrow>
      (\<exists>e. map_of (cache s) key = Some e
          \<and> cachedAt r = Some (iso_string (entry_expiresAt e - defaultTTL s * 1000))
          \<and> expiresAt r = Some (iso_string (entry_expiresAt e))))
   \<and> (fst (getFromCache (setDefaultTTL (setCache s t key v (Some ttl) tags) d) now' key) = Inr (Some r') \<longrightarrow>
        cachedAt r' = Some (iso_string (t + (ttl - d) * 1000)))
   \<and> (isCacheEnabled s \<and> now' < t + ttl * 1000
        \<and> valid_time_value (t + (ttl - d) * 1000) \<and> valid_time_value (t + ttl * 1000) \<longrightarrow>
        (\<exists>r'. fst (getFromCache (setDefaultTTL (setCache s t key v (Some ttl) tags) d) now' key) =
                 Inr (Some r')))"
proof -
  have first: "\<exists>e. map_of (cache s) key = Some e
          \<and> cachedAt r = Some (iso_string (entry_expiresAt e - defaultTTL s * 1000))
          \<and> expiresAt r = Some (iso_string (entry_expiresAt e))"
    if "fst (getFromCache s now key) = Inr (Some r)" for s now r
    using that
    by (auto simp: getFromCache_def Date_toISOString_def split: if_splits option.splits)
  let ?s1 = "setDefaultTTL (setCache s t key v (Some ttl) tags) d"
  let ?e = "\<lparr>entry_data = v, entry_expiresAt = t + ttl * 1000, entry_tags = tags\<rparr>"
  have arith: "t + ttl * 1000 - d * 1000 = t + (ttl - d) * 1000"
    by (simp add: algebra_simps)
  have en1: "isCacheEnabled ?s1" and look: "map_of (cache ?s1) key = Some ?e"
    and dt: "defaultTTL ?s1 = d"
    if "isCacheEnabled s"
    using that setCache_lookup [OF that, of t key v ttl tags]
    by (simp_all add: setDefaultTTL_def setCache_enabled)
  have second: "cachedAt r' = Some (iso_string (t + (ttl - d) * 1000))"
    if got: "fst (getFromCache ?s1 now' key) = Inr (Some r')"
  proof -
    from got have "isCacheEnabled ?s1"
      by (auto simp: getFromCache_def split: if_splits)
    then have en: "isCacheEnabled s"
      by (simp add: setDefaultTTL_def setCache_fields)
    from first [OF got] look [OF en] dt [OF en]
    show ?thesis by (auto simp: arith)
  qed
  have third: "\<exists>r'. fst (getFromCache ?s1 now' key) = Inr (Some r')"
    if en: "isCacheEnabled s" and live: "now' < t + ttl * 1000"
      and v1: "valid_time_value (t + (ttl - d) * 1000)" and v2: "valid_time_value (t + ttl * 1000)"
    using getFromCache_hit [OF en1 [OF en] look [OF en], of now'] live v1 v2 dt [OF en]
    by (simp add: arith)
  from first [of s now r] second third show ?thesis by blast
qed

text \<open>
  Witness for C10: the hit on the tagged entry, which expires at 5000, reports the time
  5000 - 300000; and an entry written at 1000 for 5 seconds and read under a default of
  60 seconds reports the time 1000 + (5 - 60) * 1000, which is 55 seconds before the
  write.
\<close>

theorem cachedAt_from_defaultTTL_witness:
  "fst (getFromCache two_entries 10 ''inv:1'') =
     Inr (Some \<lparr>data = JObj [(''id'', JNum 1)], error = None, fromCache = True,
                 cachedAt = Some ''1969-12-31T23:55:05.000Z'',
                 expiresAt = Some ''1970-01-01T00:00:05.000Z''\<rparr>)
   \<and> map_of (cache two_entries) ''inv:1'' = Some invoice_entry
   \<and> iso_string (entry_expiresAt invoice_entry - defaultTTL two_entries * 1000) = ''1969-12-31T23:55:05.000Z''
   \<and> isCacheEnabled new_DatabaseService \<and> (1500 :: int) < 1000 + 5 * 1000
   \<and> valid_time_value (1000 + (5 - 60) * 1000) \<and> valid_time_value (1000 + 5 * 1000)
   \<and> (\<exists>r'. fst (getFromCache
        (setDefaultTTL (setCache new_DatabaseService 1000 ''k'' JNull (Some 5) []) 60) 1500 ''k'') =
          Inr (Some r')
        \<and> cachedAt r' = Some ''1969-12-31T23:59:06.000Z'')"
proof -
  have en: "isCacheEnabled two_entries" "isCacheEnabled new_DatabaseService"
    by (simp_all add: two_entries_def new_DatabaseService_def)
  have look: "map_of (cache two_entries) ''inv:1'' = Some invoice_entry"
    by (simp add: two_entries_def)
  have dt: "defaultTTL two_entries = 300"
    by (simp add: two_entries_def new_DatabaseService_def)
  have v: "valid_time_value (1000 + (5 - 60) * 1000)" "valid_time_value (1000 + 5 * 1000)"
    by (simp_all add: valid_time_value_def)
  have got: "fst (getFromCache two_entries 10 ''inv:1'') =
     Inr (Some \<lparr>data = JObj [(''id'', JNum 1)], error = None, fromCache = True,
                 cachedAt = Some ''1969-12-31T23:55:05.000Z'',
                 expiresAt = Some ''1970-01-01T00:00:05.000Z''\<rparr>)"
    using getFromCache_hit [OF en(1) look, of 10]
    by (simp add: invoice_entry_def dt valid_time_value_def iso_string_examples)
  note inst1 = cachedAt_from_defaultTTL [where s = two_entries and now = 10 and key = "''inv:1''"
      and r = "\<lparr>data = JObj [(''id'', JNum 1)], error = None, fromCache = True,
                 cachedAt = Some ''1969-12-31T23:55:05.000Z'',
                 expiresAt = Some ''1970-01-01T00:00:05.000Z''\<rparr>", THEN conjunct1]
  from inst1 got obtain e where e: "map_of (cache two_entries) ''inv:1'' = Some e"
      "Some ''1969-12-31T23:55:05.000Z'' = Some (iso_string (entry_expiresAt e - defaultTTL two_entries * 1000))"
    by auto
  from e(1) look have "e = invoice_entry" by simp
  with e(2) have a: "iso_string (entry_expiresAt invoice_entry - defaultTTL two_entries * 1000) =
      ''1969-12-31T23:55:05.000Z''"
    by simp
  note inst2 = cachedAt_from_defaultTTL [where s = new_DatabaseService and key = "''k''"
      and now' = 1500 and t = 1000 and ttl = 5 and v = JNull and tags = "[]" and d = 60]
  from inst2 [THEN conjunct2, THEN conjunct2] en(2) v
  obtain r' where r': "fst (getFromCache
        (setDefaultTTL (setCache new_DatabaseService 1000 ''k'' JNull (Some 5) []) 60) 1500 ''k'') =
          Inr (Some r')"
    by auto
  from inst2 [where r' = r', THEN conjunct2, THEN conjunct1] r'
  have "cachedAt r' = Some (iso_string (1000 + (5 - 60) * 1000))" by blast
  then have "cachedAt r' = Some ''1969-12-31T23:59:06.000Z''"
    by (simp add: iso_string_examples)
  with r' have b: "\<exists>r'. fst (getFromCache
        (setDefaultTTL (setCache new_DatabaseService 1000 ''k'' JNull (Some 5) []) 60) 1500 ''k'') =
          Inr (Some r')
        \<and> cachedAt r' = Some ''1969-12-31T23:59:06.000Z''"
    by blast
  from got look a en(2) v b show ?thesis by simp
qed

section \<open>Claims about the read operations\<close>

text \<open>
  Claim C4 as stated fails: it holds for every read whose key has a valid entry, without
  a condition on the service. With caching disabled the entry under the key of the read
  is still in the map and valid at time 4999, yet \<^verbatim>\<open>select\<close> sends its query to the gateway
  and returns the gateway's rows with \<^verbatim>\<open>fromCache = false\<close>.
\<close>

theorem read_through_bypass_counterexample:
  "isCacheValid cached_select_disabled 4999 (generateCacheKey ''invoices'' OpSelect (options_json paid_invoices))
   \<and> fst (select rows_gateway cached_select_disabled 4999 4999 ''invoices'' paid_invoices) =
       Inr \<lparr>data = JArr [JObj [(''id'', JNum 1)]], error = None, fromCache = False,
            cachedAt = None, expiresAt = None\<rparr>
   \<and> gateway_calls (snd (select rows_gateway cached_select_disabled 4999 4999 ''invoices'' paid_invoices)) =
       [select_query ''invoices'' paid_invoices]"
proof -
  let ?key = "generateCacheKey ''invoices'' OpSelect (options_json paid_invoices)"
  have valid: "isCacheValid cached_select_disabled 4999 ?key"
    by (simp add: isCacheValid_def cached_select_disabled_def cached_select_def invoice_entry_def)
  have miss: "fst (getFromCache cached_select_disabled 4999 ?key) = Inr None"
    by (simp add: getFromCache_def cached_select_disabled_def)
  have calls: "gateway_calls cached_select_disabled = []"
    by (simp add: cached_select_disabled_def cached_select_def new_DatabaseService_def)
  have res: "fst (select rows_gateway cached_select_disabled 4999 4999 ''invoices'' paid_invoices) =
       Inr \<lparr>data = JArr [JObj [(''id'', JNum 1)]], error = None, fromCache = False,
            cachedAt = None, expiresAt = None\<rparr>"
    by (simp add: select_on_miss [OF miss] Let_def rows_gateway_def success_def)
  have sent: "gateway_calls (snd (select rows_gateway cached_select_disabled 4999 4999 ''invoices'' paid_invoices)) =
       [select_query ''invoices'' paid_invoices]"
    by (simp add: select_miss_calls [OF miss] calls)
  from valid res sent show ?thesis by blast
qed

text \<open>
  Claim C4, amended (read-through bypass on a hit). While caching is enabled, when the
  key of a \<^verbatim>\<open>select\<close> or a \<^verbatim>\<open>rawQuery\<close> has an entry that has not expired, and the entry's
  expiry time and that time less the default time-to-live are time values of a \<^verbatim>\<open>Date\<close>,
  the call returns the cached value with \<^verbatim>\<open>fromCache = true\<close> and leaves the whole state as
  it is, the list of gateway requests included. And after a read that missed, got rows
  from the gateway and cached them under its directive, the same read again before the
  entry expires, under the same condition on the two times, is answered from the cache,
  whatever the gateway would say, and sends no request: one request has been sent in all.
\<close>

theorem read_through_bypass_on_hit:
  "(isCacheEnabled s \<and> map_of (cache s) (generateCacheKey table OpSelect (options_json options)) = Some e
      \<and> now < entry_expiresAt e
      \<and> valid_time_value (entry_expiresAt e - defaultTTL s * 1000)
      \<and> valid_time_value (entry_expiresAt e) \<longrightarrow>
      select gw s now now_set table options =
        (Inr \<lparr>data = entry_data e, error = None, fromCache = True,
              cachedAt = Some (iso_string (entry_expiresAt e - defaultTTL s * 1000)),
              expiresAt = Some (iso_string (entry_expiresAt e))\<rparr>, s))
   \<and> (isCacheEnabled s \<and> map_of (cache s) (generateCacheKey ''raw'' OpSelect (raw_params query params)) = Some e
      \<and> now < entry_expiresAt e
      \<and> valid_time_value (entry_expiresAt e - defaultTTL s * 1000)
      \<and> valid_time_value (entry_expiresAt e) \<longrightarrow>
      rawQuery gw s now now_set query params options =
        (Inr \<lparr>data = entry_data e, error = None, fromCache = True,
              cachedAt = Some (iso_string (entry_expiresAt e - defaultTTL s * 1000)),
              expiresAt = Some (iso_string (entry_expiresAt e))\<rparr>, s))
   \<and> (isCacheEnabled s
      \<and> fst (getFromCache s t1 (generateCacheKey table OpSelect (options_json options))) = Inr None
      \<and> gw (gateway_calls s) (select_query table options) = Resolved d None
      \<and> opt_cache options = Some config
      \<and> t3 < t2 + directive_ttl s config * 1000
      \<and> valid_time_value (t2 + directive_ttl s config * 1000 - defaultTTL s * 1000)
      \<and> valid_time_value (t2 + directive_ttl s config * 1000) \<longrightarrow>
      gateway_calls (snd (select gw s t1 t2 table options)) =
        gateway_calls s @ [select_query table options]
      \<and> select gw' (snd (select gw s t1 t2 table options)) t3 t4 table options =
        (Inr \<lparr>data = d, error = None, fromCache = True,
              cachedAt = Some (iso_string (t2 + directive_ttl s config * 1000 - defaultTTL s * 1000)),
              expiresAt = Some (iso_string (t2 + directive_ttl s config * 1000))\<rparr>,
         snd (select gw s t1 t2 table options)))
   \<and> (isCacheEnabled s
      \<and> fst (getFromCache s t1 (generateCacheKey ''raw'' OpSelect (raw_params query params))) = Inr None
      \<and> gw (gateway_calls s) [Call_rpc ''execute_sql'' (raw_params query params)] = Resolved d None
      \<and> opt_cache options = Some config
      \<and> t3 < t2 + directive_ttl s config * 1000
      \<and> valid_time_value (t2 + directive_ttl s config * 1000 - defaultTTL s * 1000)
      \<and> valid_time_value (t2 + directive_ttl s config * 1000) \<longrightarrow>
      gateway_calls (snd (rawQuery gw s t1 t2 query params options)) =
        gateway_calls s @ [[Call_rpc ''execute_sql'' (raw_params query params)]]
      \<and> rawQuery gw' (snd (rawQuery gw s t1 t2 query params options)) t3 t4 query params options =
        (Inr \<lparr>data = d, error = None, fromCache = True,
              cachedAt = Some (iso_string (t2 + directive_ttl s config * 1000 - defaultTTL s * 1000)),
              expiresAt = Some (iso_string (t2 + directive_ttl s config * 1000))\<rparr>,
         snd (rawQuery gw s t1 t2 query params options)))"
proof (intro conjI impI)
  assume "isCacheEnabled s \<and> map_of (cache s) (generateCacheKey table OpSelect (options_json options)) = Some e
      \<and> now < entry_expiresAt e
      \<and> valid_time_value (entry_expiresAt e - defaultTTL s * 1000)
      \<and> valid_time_value (entry_expiresAt e)"
  then show "select gw s now now_set table options =
        (Inr \<lparr>data = entry_data e, error = None, fromCache = True,
              cachedAt = Some (iso_string (entry_expiresAt e - defaultTTL s * 1000)),
              expiresAt = Some (iso_string (entry_expiresAt e))\<rparr>, s)"
    by (simp add: select_on_hit getFromCache_hit)
next
  assume "isCacheEnabled s \<and> map_of (cache s) (generateCacheKey ''raw'' OpSelect (raw_params query params)) = Some e
      \<and> now < entry_expiresAt e
      \<and> valid_time_value (entry_expiresAt e - defaultTTL s * 1000)
      \<and> valid_time_value (entry_expiresAt e)"
  then show "rawQuery gw s now now_set query params options =
        (Inr \<lparr>data = entry_data e, error = None, fromCache = True,
              cachedAt = Some (iso_string (entry_expiresAt e - defaultTTL s * 1000)),
              expiresAt = Some (iso_string (entry_expiresAt e))\<rparr>, s)"
    by (simp add: rawQuery_on_hit getFromCache_hit)
next
  assume h: "isCacheEnabled s
      \<and> fst (getFromCache s t1 (generateCacheKey table OpSelect (options_json options))) = Inr None
      \<and> gw (gateway_calls s) (select_query table options) = Resolved d None
      \<and> opt_cache options = Some config
      \<and> t3 < t2 + directive_ttl s config * 1000
      \<and> valid_time_value (t2 + directive_ttl s config * 1000 - defaultTTL s * 1000)
      \<and> valid_time_value (t2 + directive_ttl s config * 1000)"
  let ?key = "generateCacheKey table OpSelect (options_json options)"
  from h have miss: "fst (getFromCache s t1 ?key) = Inr None" by simp
  have first: "snd (select gw s t1 t2 table options) =
      logger Debug (''Database select completed for table '' @ table)
        (Data (JObj [(''rowCount'', JNum (js_length d)),
                     (''cached'', JBool (opt_cache options \<noteq> None))]))
        (cache_result ((snd (getFromCache s t1 ?key))\<lparr>gateway_calls := gateway_calls s @ [select_query table options]\<rparr>)
           t2 ?key d options)"
    using h by (simp add: select_on_miss [OF miss] Let_def)
  show "gateway_calls (snd (select gw s t1 t2 table options)) =
        gateway_calls s @ [select_query table options]"
    by (simp add: first cache_result_fields)
  show "select gw' (snd (select gw s t1 t2 table options)) t3 t4 table options =
        (Inr \<lparr>data = d, error = None, fromCache = True,
              cachedAt = Some (iso_string (t2 + directive_ttl s config * 1000 - defaultTTL s * 1000)),
              expiresAt = Some (iso_string (t2 + directive_ttl s config * 1000))\<rparr>,
         snd (select gw s t1 t2 table options))"
    unfolding first
    using h by (intro select_on_hit populated_then_hit) simp_all
next
  assume h: "isCacheEnabled s
      \<and> fst (getFromCache s t1 (generateCacheKey ''raw'' OpSelect (raw_params query params))) = Inr None
      \<and> gw (gateway_calls s) [Call_rpc ''execute_sql'' (raw_params query params)] = Resolved d None
      \<and> opt_cache options = Some config
      \<and> t3 < t2 + directive_ttl s config * 1000
      \<and> valid_time_value (t2 + directive_ttl s config * 1000 - defaultTTL s * 1000)
      \<and> valid_time_value (t2 + directive_ttl s config * 1000)"
  let ?key = "generateCacheKey ''raw'' OpSelect (raw_params query params)"
  from h have miss: "fst (getFromCache s t1 ?key) = Inr None" by simp
  have first: "snd (rawQuery gw s t1 t2 query params options) =
      logger Debug ''Database raw query completed''
        (Data (JObj [(''rowCount'', JNum (js_length d)),
                     (''cached'', JBool (opt_cache options \<noteq> None))]))
        (cache_result ((snd (getFromCache s t1 ?key))\<lparr>gateway_calls := gateway_calls s @
             [[Call_rpc ''execute_sql'' (raw_params query params)]]\<rparr>)
           t2 ?key d options)"
    using h by (simp add: rawQuery_on_miss [OF miss] Let_def)
  show "gateway_calls (snd (rawQuery gw s t1 t2 query params options)) =
        gateway_calls s @ [[Call_rpc ''execute_sql'' (raw_params query params)]]"
    by (simp add: first cache_result_fields)
  show "rawQuery gw' (snd (rawQuery gw s t1 t2 query params options)) t3 t4 query params options =
        (Inr \<lparr>data = d, error = None, fromCache = True,
              cachedAt = Some (iso_string (t2 + directive_ttl s config * 1000 - defaultTTL s * 1000)),
              expiresAt = Some (iso_string (t2 + directive_ttl s config * 1000))\<rparr>,
         snd (rawQuery gw s t1 t2 query params options))"
    unfolding first
    using h by (intro rawQuery_on_hit populated_then_hit) simp_all
qed

text \<open>
  Witness for C4: with entries under both keys, \<^verbatim>\<open>select\<close> and \<^verbatim>\<open>rawQuery\<close> at time 4999 return
  them and send nothing to a gateway that would fail; and a read at 1000, cached at 1010
  for 5 seconds, is answered from the cache at 6009 with one request sent in all.
\<close>

theorem read_through_bypass_on_hit_witness:
  "select failing_gateway cached_select 4999 4999 ''invoices'' paid_invoices =
     (Inr \<lparr>data = JObj [(''id'', JNum 1)], error = None, fromCache = True,
           cachedAt = Some ''1969-12-31T23:55:05.000Z'',
           expiresAt = Some ''1970-01-01T00:00:05.000Z''\<rparr>, cached_select)
   \<and> rawQuery failing_gateway cached_select 4999 4999 ''select 1'' [] [] =
     (Inr \<lparr>data = JObj [(''id'', JNum 2)], error = None, fromCache = True,
           cachedAt = Some ''1969-12-31T23:55:05.000Z'',
           expiresAt = Some ''1970-01-01T00:00:05.000Z''\<rparr>, cached_select)
   \<and> gateway_calls cached_select = []
   \<and> gateway_calls (snd (select rows_gateway new_DatabaseService 1000 1010 ''invoices'' paid_invoices)) =
       [select_query ''invoices'' paid_invoices]
   \<and> select failing_gateway
        (snd (select rows_gateway new_DatabaseService 1000 1010 ''invoices'' paid_invoices))
        6009 6020 ''invoices'' paid_invoices =
       (Inr \<lparr>data = JArr [JObj [(''id'', JNum 1)]], error = None, fromCache = True,
             cachedAt = Some ''1969-12-31T23:55:06.010Z'',
             expiresAt = Some ''1970-01-01T00:00:06.010Z''\<rparr>,
        snd (select rows_gateway new_DatabaseService 1000 1010 ''invoices'' paid_invoices))
   \<and> gateway_calls (snd (rawQuery rows_gateway new_DatabaseService 1000 1010 ''select 1'' [] paid_invoices)) =
       [[Call_rpc ''execute_sql'' (raw_params ''select 1'' [])]]
   \<and> rawQuery failing_gateway
        (snd (rawQuery rows_gateway new_DatabaseService 1000 1010 ''select 1'' [] paid_invoices))
        6009 6020 ''select 1'' [] paid_invoices =
       (Inr \<lparr>data = JArr [JObj [(''id'', JNum 1)]], error = None, fromCache = True,
             cachedAt = Some ''1969-12-31T23:55:06.010Z'',
             expiresAt = Some ''1970-01-01T00:00:06.010Z''\<rparr>,
        snd (rawQuery rows_gateway new_DatabaseService 1000 1010 ''select 1'' [] paid_invoices))"
proof -
  have en: "isCacheEnabled cached_select" "isCacheEnabled new_DatabaseService"
    by (simp_all add: cached_select_def new_DatabaseService_def)
  have dt: "defaultTTL cached_select = 300" "defaultTTL new_DatabaseService = 300"
    by (simp_all add: cached_select_def new_DatabaseService_def)
  have calls: "gateway_calls cached_select = []" "gateway_calls new_DatabaseService = []"
    by (simp_all add: cached_select_def new_DatabaseService_def)
  have look1: "map_of (cache cached_select) (generateCacheKey ''invoices'' OpSelect (options_json paid_invoices)) =
      Some invoice_entry"
    by (simp add: cached_select_def)
  have look2: "map_of (cache cached_select) (generateCacheKey ''raw'' OpSelect (raw_params ''select 1'' [])) =
      Some untagged_entry"
  proof -
    have "generateCacheKey ''raw'' OpSelect (raw_params ''select 1'' []) \<noteq>
          generateCacheKey ''invoices'' OpSelect (options_json paid_invoices)"
      by code_simp
    then show ?thesis by (simp add: cached_select_def)
  qed
  have live: "(4999 :: int) < entry_expiresAt invoice_entry" "(4999 :: int) < entry_expiresAt untagged_entry"
    by (simp_all add: invoice_entry_def untagged_entry_def)
  have v1: "valid_time_value (entry_expiresAt invoice_entry - defaultTTL cached_select * 1000)"
    "valid_time_value (entry_expiresAt invoice_entry)"
    "valid_time_value (entry_expiresAt untagged_entry - defaultTTL cached_select * 1000)"
    "valid_time_value (entry_expiresAt untagged_entry)"
    by (simp_all add: valid_time_value_def invoice_entry_def untagged_entry_def dt)
  have dir: "opt_cache paid_invoices = Some [Ttl 5, Key ''paid'', Tags [''invoices'']]"
    by (simp add: paid_invoices_def)
  have ttl: "directive_ttl new_DatabaseService [Ttl 5, Key ''paid'', Tags [''invoices'']] = 5"
    by (simp add: directive_ttl_def)
  have v2: "valid_time_value (1010 + 5 * 1000 - 300 * 1000)" "valid_time_value (1010 + 5 * 1000)"
    by (simp_all add: valid_time_value_def)
  have rows1: "rows_gateway (gateway_calls new_DatabaseService) (select_query ''invoices'' paid_invoices) =
      Resolved (JArr [JObj [(''id'', JNum 1)]]) None"
    and rows2: "rows_gateway (gateway_calls new_DatabaseService)
        [Call_rpc ''execute_sql'' (raw_params ''select 1'' [])] =
      Resolved (JArr [JObj [(''id'', JNum 1)]]) None"
    by (simp_all add: rows_gateway_def)
  note hit = read_through_bypass_on_hit [where s = cached_select and gw = failing_gateway
      and now = 4999 and now_set = 4999 and table = "''invoices''" and options = paid_invoices
      and query = "''select 1''" and params = "[]"]
  note a = hit [where e = invoice_entry, THEN conjunct1]
  have b: "rawQuery failing_gateway cached_select 4999 4999 ''select 1'' [] [] =
     (Inr \<lparr>data = entry_data untagged_entry, error = None, fromCache = True,
           cachedAt = Some (iso_string (entry_expiresAt untagged_entry - defaultTTL cached_select * 1000)),
           expiresAt = Some (iso_string (entry_expiresAt untagged_entry))\<rparr>, cached_select)"
    using read_through_bypass_on_hit [where s = cached_select and gw = failing_gateway
      and now = 4999 and now_set = 4999 and options = "[]"
      and query = "''select 1''" and params = "[]" and e = untagged_entry, THEN conjunct2, THEN conjunct1]
      en(1) look2 live(2) v1(3,4) by blast
  note again = read_through_bypass_on_hit [where s = new_DatabaseService and gw = rows_gateway
      and gw' = failing_gateway and table = "''invoices''" and options = paid_invoices
      and query = "''select 1''" and params = "[]" and ?t1.0 = 1000 and ?t2.0 = 1010
      and ?t3.0 = 6009 and ?t4.0 = 6020 and d = "JArr [JObj [(''id'', JNum 1)]]"
      and config = "[Ttl 5, Key ''paid'', Tags [''invoices'']]"]
  note c = again [THEN conjunct2, THEN conjunct2, THEN conjunct1]
  note d = again [THEN conjunct2, THEN conjunct2, THEN conjunct2]
  from a en(1) look1 live(1) v1(1,2)
  have "select failing_gateway cached_select 4999 4999 ''invoices'' paid_invoices =
     (Inr \<lparr>data = entry_data invoice_entry, error = None, fromCache = True,
           cachedAt = Some (iso_string (entry_expiresAt invoice_entry - defaultTTL cached_select * 1000)),
           expiresAt = Some (iso_string (entry_expiresAt invoice_entry))\<rparr>, cached_select)"
    by blast
  then have a': "select failing_gateway cached_select 4999 4999 ''invoices'' paid_invoices =
     (Inr \<lparr>data = JObj [(''id'', JNum 1)], error = None, fromCache = True,
           cachedAt = Some ''1969-12-31T23:55:05.000Z'',
           expiresAt = Some ''1970-01-01T00:00:05.000Z''\<rparr>, cached_select)"
    by (simp add: dt invoice_entry_def iso_string_examples)
  from b have b': "rawQuery failing_gateway cached_select 4999 4999 ''select 1'' [] [] =
     (Inr \<lparr>data = JObj [(''id'', JNum 2)], error = None, fromCache = True,
           cachedAt = Some ''1969-12-31T23:55:05.000Z'',
           expiresAt = Some ''1970-01-01T00:00:05.000Z''\<rparr>, cached_select)"
    by (simp add: dt untagged_entry_def iso_string_examples)
  from c en(2) new_service_misses rows1 dir ttl v2
  have c': "gateway_calls (snd (select rows_gateway new_DatabaseService 1000 1010 ''invoices'' paid_invoices)) =
       [select_query ''invoices'' paid_invoices]
   \<and> select failing_gateway
        (snd (select rows_gateway new_DatabaseService 1000 1010 ''invoices'' paid_invoices))
        6009 6020 ''invoices'' paid_invoices =
       (Inr \<lparr>data = JArr [JObj [(''id'', JNum 1)]], error = None, fromCache = True,
             cachedAt = Some ''1969-12-31T23:55:06.010Z'',
             expiresAt = Some ''1970-01-01T00:00:06.010Z''\<rparr>,
        snd (select rows_gateway new_DatabaseService 1000 1010 ''invoices'' paid_invoices))"
    by (simp add: dt calls iso_string_examples)
  from d en(2) new_service_misses rows2 dir ttl v2
  have d': "gateway_calls (snd (rawQuery rows_gateway new_DatabaseService 1000 1010 ''select 1'' [] paid_invoices)) =
       [[Call_rpc ''execute_sql'' (raw_params ''select 1'' [])]]
   \<and> rawQuery failing_gateway
        (snd (rawQuery rows_gateway new_DatabaseService 1000 1010 ''select 1'' [] paid_invoices))
        6009 6020 ''select 1'' [] paid_invoices =
       (Inr \<lparr>data = JArr [JObj [(''id'', JNum 1)]], error = None, fromCache = True,
             cachedAt = Some ''1969-12-31T23:55:06.010Z'',
             expiresAt = Some ''1970-01-01T00:00:06.010Z''\<rparr>,
        snd (rawQuery rows_gateway new_DatabaseService 1000 1010 ''select 1'' [] paid_invoices))"
    by (simp add: dt calls iso_string_examples)
  from a' b' calls(1) c' d' show ?thesis by blast
qed




section \<open>Facts about results\<close>

lemma never_both_simps [simp]:
  "never_both (failure msg)" "never_both (success d)"
  by (simp_all add: never_both_def failure_def success_def)

lemma never_both_cached:
  "fst (getFromCache s now key) = Inr (Some r) \<Longrightarrow> never_both r"
  by (auto simp: getFromCache_def never_both_def split: if_splits option.splits sum.splits)

lemma select_never_both:
  assumes "fst (select gw s t1 t2 table options) = Inr r"
  shows "never_both r"
proof (cases "getFromCache s t1 (generateCacheKey table OpSelect (options_json options))")
  case (Pair outcome s1)
  show ?thesis
  proof (cases outcome)
    case (Inl e)
    with Pair assms show ?thesis by (simp add: select_on_throw)
  next
    case (Inr found)
    show ?thesis
    proof (cases found)
      case None
      with Pair Inr have "fst (getFromCache s t1 (generateCacheKey table OpSelect (options_json options))) = Inr None"
        by simp
      from select_on_miss [OF this, of gw t2] assms show ?thesis
        by (auto simp: Let_def split: gw_response.splits option.splits)
    next
      case (Some cached)
      with Pair Inr assms have r: "r = cached" by (simp add: select_on_hit)
      from Pair Inr Some
      have "fst (getFromCache s t1 (generateCacheKey table OpSelect (options_json options))) = Inr (Some cached)"
        by simp
      from never_both_cached [OF this] r show ?thesis by simp
    qed
  qed
qed

lemma rawQuery_never_both:
  assumes "fst (rawQuery gw s t1 t2 query params options) = Inr r"
  shows "never_both r"
proof (cases "getFromCache s t1 (generateCacheKey ''raw'' OpSelect (raw_params query params))")
  case (Pair outcome s1)
  show ?thesis
  proof (cases outcome)
    case (Inl e)
    with Pair assms show ?thesis by (simp add: rawQuery_on_throw)
  next
    case (Inr found)
    show ?thesis
    proof (cases found)
      case None
      with Pair Inr have "fst (getFromCache s t1 (generateCacheKey ''raw'' OpSelect (raw_params query params))) = Inr None"
        by simp
      from rawQuery_on_miss [OF this, of gw t2 options] assms show ?thesis
        by (auto simp: Let_def split: gw_response.splits option.splits)
    next
      case (Some cached)
      with Pair Inr assms have r: "r = cached" by (simp add: rawQuery_on_hit)
      from Pair Inr Some
      have "fst (getFromCache s t1 (generateCacheKey ''raw'' OpSelect (raw_params query params))) = Inr (Some cached)"
        by simp
      from never_both_cached [OF this] r show ?thesis by simp
    qed
  qed
qed

lemma insert_never_both: "never_both (fst (insert_rows gw s table d options))"
  by (simp add: insert_rows_def send_def split: gw_response.splits option.splits)

lemma update_never_both: "never_both (fst (update gw s table d filters options))"
  by (simp add: update_def send_def split: gw_response.splits option.splits)

lemma delete_never_both: "never_both (fst (delete gw s table filters options))"
  by (simp add: delete_def send_def never_both_def failure_def split: gw_response.splits option.splits)

lemma upsert_never_both: "never_both (fst (upsert gw s table d options))"
  by (simp add: upsert_def send_def split: gw_response.splits option.splits)

lemma batch_loop_returned:
  "batch_loop gw clock i ops results s = (Returned r, s') \<Longrightarrow>
   data r = JNull \<and> error_truthy (error r)"
proof (induction ops arbitrary: i results s)
  case Nil
  then show ?case by simp
next
  case (Cons op ops)
  then show ?case
    by (auto split: sum.splits prod.splits if_splits)
qed

lemma batch_exactly_one:
  "(error (fst (batch gw clock s operations)) = None) = (data (fst (batch gw clock s operations)) \<noteq> JNull)"
proof (cases "batch_loop gw clock 0 operations [] s")
  case (Pair ex s1)
  show ?thesis
  proof (cases ex)
    case (Completed results)
    with Pair show ?thesis by (simp add: batch_def success_def)
  next
    case (Returned r)
    with Pair batch_loop_returned [of gw clock 0 operations "[]" s r s1]
    show ?thesis by (cases "error r") (simp_all add: batch_def)
  next
    case (Threw e)
    with Pair show ?thesis by (simp add: batch_def failure_def)
  qed
qed

lemma delete_success_neither:
  "filters \<noteq> JUndefined \<Longrightarrow> filters \<noteq> JNull \<Longrightarrow>
   gw (gateway_calls s) ([Call_from table, Call_delete] @ eq_filters filters) = Resolved d None \<Longrightarrow>
   data (fst (delete gw s table filters options)) = JNull \<and>
   error (fst (delete gw s table filters options)) = None"
  by (simp add: delete_def send_def)

section \<open>Claims about results\<close>

text \<open>
  Claim C2 as stated fails: a successful \<^verbatim>\<open>delete\<close> returns a result with neither data
  nor an error.
\<close>

theorem query_result_counterexample:
  "data (fst (delete ok_gateway new_DatabaseService ''invoices'' (JObj [(''id'', JNum 1)]) [])) = JNull
   \<and> error (fst (delete ok_gateway new_DatabaseService ''invoices'' (JObj [(''id'', JNum 1)]) [])) = None"
  by (simp add: delete_def send_def ok_gateway_def)

text \<open>
  Claim C2, amended. No operation returns a result with both an error and data: when
  \<^verbatim>\<open>error\<close> is present, \<^verbatim>\<open>data\<close> is \<^verbatim>\<open>null\<close>. This holds of every result that \<^verbatim>\<open>select\<close> and
  \<^verbatim>\<open>rawQuery\<close> return and of the result of each of the other operations, which always
  return one. A result may carry neither: a successful \<^verbatim>\<open>delete\<close> always does, its type
  being \<^verbatim>\<open>QueryResult<null>\<close>. The result of \<^verbatim>\<open>batch\<close> carries exactly one of the two.
\<close>

theorem query_result_never_both:
  "(\<forall>r. fst (select gw s t1 t2 table options) = Inr r \<longrightarrow> never_both r)
   \<and> never_both (fst (insert_rows gw s table d options))
   \<and> never_both (fst (update gw s table d filters options))
   \<and> never_both (fst (delete gw s table filters options))
   \<and> never_both (fst (upsert gw s table d options))
   \<and> (\<forall>r. fst (rawQuery gw s t1 t2 query params options) = Inr r \<longrightarrow> never_both r)
   \<and> never_both (fst (batch gw clock s operations))
   \<and> ((error (fst (batch gw clock s operations)) = None) =
        (data (fst (batch gw clock s operations)) \<noteq> JNull))
   \<and> (filters \<noteq> JUndefined \<and> filters \<noteq> JNull
        \<and> gw (gateway_calls s) ([Call_from table, Call_delete] @ eq_filters filters) = Resolved d' None \<longrightarrow>
        data (fst (delete gw s table filters options)) = JNull
        \<and> error (fst (delete gw s table filters options)) = None)"
proof -
  have sel: "\<forall>r. fst (select gw s t1 t2 table options) = Inr r \<longrightarrow> never_both r"
    using select_never_both by blast
  have raw: "\<forall>r. fst (rawQuery gw s t1 t2 query params options) = Inr r \<longrightarrow> never_both r"
    using rawQuery_never_both by blast
  have b: "never_both (fst (batch gw clock s operations))"
    using batch_exactly_one [of gw clock s operations] by (auto simp: never_both_def)
  have del: "filters \<noteq> JUndefined \<and> filters \<noteq> JNull
        \<and> gw (gateway_calls s) ([Call_from table, Call_delete] @ eq_filters filters) = Resolved d' None \<longrightarrow>
        data (fst (delete gw s table filters options)) = JNull
        \<and> error (fst (delete gw s table filters options)) = None"
    using delete_success_neither [of filters gw s table d' options] by simp
  show ?thesis
    by (intro conjI sel insert_never_both update_never_both delete_never_both
        upsert_never_both raw b batch_exactly_one del)
qed

text \<open>
  Witness for C2: a failed \<^verbatim>\<open>select\<close> and a failed \<^verbatim>\<open>batch\<close> carry the error and no data; a
  successful \<^verbatim>\<open>delete\<close> carries neither.
\<close>

theorem query_result_never_both_witness:
  "(\<exists>r. fst (select failing_gateway new_DatabaseService 0 0 ''invoices'' []) = Inr r
        \<and> error r = Some ''permission denied'' \<and> data r = JNull)
   \<and> error (fst (batch failing_gateway (\<lambda>i. (0, 0)) new_DatabaseService insert_then_delete)) =
       Some ''permission denied''
   \<and> data (fst (batch failing_gateway (\<lambda>i. (0, 0)) new_DatabaseService insert_then_delete)) = JNull
   \<and> data (fst (delete ok_gateway new_DatabaseService ''customers'' (JObj [(''id'', JNum 7)]) [])) = JNull
   \<and> error (fst (delete ok_gateway new_DatabaseService ''customers'' (JObj [(''id'', JNum 7)]) [])) = None"
proof -
  note inst = query_result_never_both [where gw = failing_gateway and s = new_DatabaseService
      and ?t1.0 = 0 and ?t2.0 = 0 and table = "''invoices''" and options = "[]"
      and clock = "\<lambda>i. (0, 0)" and operations = insert_then_delete]
  note inst_del = query_result_never_both [where gw = ok_gateway and s = new_DatabaseService
      and table = "''customers''" and options = "[]" and filters = "JObj [(''id'', JNum 7)]"
      and d' = JNull]
  have e1: "fst (select failing_gateway new_DatabaseService 0 0 ''invoices'' []) =
      Inr (failure ''permission denied'')"
    by (simp add: select_on_miss [OF new_service_misses] Let_def failing_gateway_def)
  have e2: "error (fst (batch failing_gateway (\<lambda>i. (0, 0)) new_DatabaseService insert_then_delete)) =
       Some ''permission denied''"
    by (simp add: batch_def insert_then_delete_def run_operation_def options_or_default_def
        insert_rows_def send_def failing_gateway_def failure_def)
  from inst [THEN conjunct1] e1 have "never_both (failure ''permission denied'')" by blast
  then have "data (failure ''permission denied'') = JNull"
    by (simp add: never_both_def failure_def)
  with e1 have d1: "\<exists>r. fst (select failing_gateway new_DatabaseService 0 0 ''invoices'' []) = Inr r
        \<and> error r = Some ''permission denied'' \<and> data r = JNull"
    by (simp add: failure_def)
  from inst e2 have d2: "data (fst (batch failing_gateway (\<lambda>i. (0, 0)) new_DatabaseService insert_then_delete)) = JNull"
    by (simp add: never_both_def)
  have ok: "ok_gateway (gateway_calls new_DatabaseService)
      ([Call_from ''customers'', Call_delete] @ eq_filters (JObj [(''id'', JNum 7)])) = Resolved JNull None"
    by (simp add: ok_gateway_def)
  from inst_del ok
  have d3: "data (fst (delete ok_gateway new_DatabaseService ''customers'' (JObj [(''id'', JNum 7)]) [])) = JNull
   \<and> error (fst (delete ok_gateway new_DatabaseService ''customers'' (JObj [(''id'', JNum 7)]) [])) = None"
    by simp
  from d1 e2 d2 d3 show ?thesis by blast
qed

section \<open>Claims about the parameters of a read\<close>

text \<open>
  The code's handling of one filter and the reading of the amended pass-through rule
  agree on every filter, so they agree on every bag of filters, whatever it mixes.
\<close>

lemma apply_filter_object:
  "apply_filter (key, JObj obj) = range_reading key obj"
  by (simp add: apply_filter_def range_filter_def range_reading_def range_operators_def
      property_def split: option.splits)

lemma apply_filter_forwarded: "apply_filter f = forwarded_filter f"
proof (cases f)
  case (Pair key val)
  show ?thesis
  proof (cases val)
    case (JObj obj)
    with Pair show ?thesis by (simp add: apply_filter_object forwarded_filter_def)
  qed (simp_all add: Pair apply_filter_def forwarded_filter_def forward_filter_def)
qed

lemma apply_filters_forwarded:
  "apply_filters options =
     (case opt_filters options of None \<Rightarrow> [] | Some filters \<Rightarrow> concat (map forwarded_filter filters))"
proof -
  have eq: "apply_filter = forwarded_filter"
    by (rule ext) (rule apply_filter_forwarded)
  show ?thesis unfolding apply_filters_def eq by (rule refl)
qed

lemma select_query_forwarded:
  "select_query table options =
     forwarded_query table (opt_columns options) (opt_filters options)
       (map_option (\<lambda>orderBy. (order_column orderBy, order_ascending orderBy)) (opt_orderBy options))
       (opt_limit options) (opt_offset options)"
proof -
  have cols: "string_or (opt_columns options) ''*'' =
      (case opt_columns options of None \<Rightarrow> ''*'' | Some c \<Rightarrow> if c = [] then ''*'' else c)"
    by (cases "opt_columns options") simp_all
  have ord: "apply_ordering options =
      (case map_option (\<lambda>orderBy. (order_column orderBy, order_ascending orderBy)) (opt_orderBy options) of
         None \<Rightarrow> []
       | Some (column, ascending) \<Rightarrow>
           [Call_order (case column of None \<Rightarrow> JUndefined | Some c \<Rightarrow> JStr c)
              (case ascending of None \<Rightarrow> True | Some b \<Rightarrow> b)])"
    by (auto simp: apply_ordering_def split: option.splits)
  have page: "apply_pagination options =
      (case opt_limit options of None \<Rightarrow> [] | Some l \<Rightarrow> if l = 0 then [] else [Call_limit (JNum l)]) @
      (case opt_offset options of
         None \<Rightarrow> []
       | Some start \<Rightarrow>
           if start = 0 then []
           else [Call_range (JNum start)
                   (JNum (start + (case opt_limit options of None \<Rightarrow> 10
                                   | Some l \<Rightarrow> if l = 0 then 10 else l) - 1))])"
    by (cases "opt_limit options"; cases "opt_offset options") (simp_all add: apply_pagination_def)
  show ?thesis
    unfolding select_query_def forwarded_query_def apply_filters_forwarded cols ord page
    by (rule refl)
qed

text \<open>
  Claim C8 as stated fails: the service reads the filters itself. For the read with
  \<^verbatim>\<open>filters: { amount: { gte: 100 }, status: { neq: 'paid' } }\<close> and \<^verbatim>\<open>offset: 20\<close> the gateway
  gets \<^verbatim>\<open>gte('amount', 100)\<close> in place of the object, nothing for \<^verbatim>\<open>status\<close>, and
  \<^verbatim>\<open>range(20, 29)\<close>, whose end the caller never gave.
\<close>

theorem pass_through_counterexample:
  "select_query ''invoices'' reinterpreted_read =
     [Call_from ''invoices'', Call_select (JStr ''*''), Call_gte ''amount'' (JNum 100),
      Call_range (JNum 20) (JNum 29)]
   \<and> gateway_calls (snd (select ok_gateway new_DatabaseService 0 0 ''invoices'' reinterpreted_read)) =
     [[Call_from ''invoices'', Call_select (JStr ''*''), Call_gte ''amount'' (JNum 100),
       Call_range (JNum 20) (JNum 29)]]"
proof -
  have q: "select_query ''invoices'' reinterpreted_read =
     [Call_from ''invoices'', Call_select (JStr ''*''), Call_gte ''amount'' (JNum 100),
      Call_range (JNum 20) (JNum 29)]"
    by (simp add: select_query_def reinterpreted_read_def property_def
        apply_filters_def apply_filter_def range_filter_def apply_ordering_def apply_pagination_def)
  have "gateway_calls (snd (select ok_gateway new_DatabaseService 0 0 ''invoices'' reinterpreted_read)) =
      gateway_calls new_DatabaseService @ [select_query ''invoices'' reinterpreted_read]"
    by (rule select_miss_calls [OF new_service_misses])
  with q show ?thesis by (simp add: new_DatabaseService_def)
qed

text \<open>
  Claim C8, amended. A read that misses the cache sends the gateway one query, and the
  query is made of the caller's parameters alone, in this way. The columns are
  forwarded, \<^verbatim>\<open>*\<close> standing for none and for the empty string. The filters are taken in
  the caller's order, whatever the bag mixes: a filter whose value is not an object (a
  number, a string, a boolean, \<^verbatim>\<open>null\<close>, an array) is forwarded with its key and value
  unchanged, as \<^verbatim>\<open>in\<close> for an array and \<^verbatim>\<open>eq\<close> otherwise; a filter whose value is an object
  is not forwarded as it is but read as a range: for each of \<^verbatim>\<open>gte\<close>, \<^verbatim>\<open>lte\<close>, \<^verbatim>\<open>gt\<close>, \<^verbatim>\<open>lt\<close>, \<^verbatim>\<open>like\<close>,
  \<^verbatim>\<open>ilike\<close>, in this order, that the object has with a value other than \<^verbatim>\<open>undefined\<close>, one
  call with the key and that value, and nothing for its other properties. \<^verbatim>\<open>orderBy\<close> is
  forwarded as \<^verbatim>\<open>order(column, ascending)\<close>, ascending unless the caller passed \<^verbatim>\<open>false\<close>. A
  limit other than 0 is forwarded unchanged, an offset other than 0 as
  \<^verbatim>\<open>range(offset, offset + limit - 1)\<close>, with 10 for a limit that is missing or 0; a limit
  of 0 and an offset of 0 are dropped. Parameters the caller did not give add nothing.
\<close>

theorem select_forwards_parameters:
  "fst (getFromCache s t1 (generateCacheKey table OpSelect (options_json options))) = Inr None
   \<and> opt_columns options = cols
   \<and> opt_filters options = fs
   \<and> map_option (\<lambda>orderBy. (order_column orderBy, order_ascending orderBy)) (opt_orderBy options) = order_by
   \<and> opt_limit options = lim
   \<and> opt_offset options = off \<longrightarrow>
   gateway_calls (snd (select gw s t1 t2 table options)) =
     gateway_calls s @ [forwarded_query table cols fs order_by lim off]"
proof
  assume h: "fst (getFromCache s t1 (generateCacheKey table OpSelect (options_json options))) = Inr None
   \<and> opt_columns options = cols
   \<and> opt_filters options = fs
   \<and> map_option (\<lambda>orderBy. (order_column orderBy, order_ascending orderBy)) (opt_orderBy options) = order_by
   \<and> opt_limit options = lim
   \<and> opt_offset options = off"
  then have miss: "fst (getFromCache s t1 (generateCacheKey table OpSelect (options_json options))) = Inr None"
    by simp
  from h have "select_query table options = forwarded_query table cols fs order_by lim off"
    using select_query_forwarded [of table options] by simp
  with select_miss_calls [OF miss, of gw t2]
  show "gateway_calls (snd (select gw s t1 t2 table options)) =
     gateway_calls s @ [forwarded_query table cols fs order_by lim off]"
    by simp
qed

text \<open>
  Witness for C8: the read with a text filter, a range filter that names \<^verbatim>\<open>lt\<close> before
  \<^verbatim>\<open>gte\<close>, a list filter and a \<^verbatim>\<open>null\<close> filter, a descending order, limit 25 and offset 50
  sends each plain filter as it is, the range as \<^verbatim>\<open>gte\<close> and \<^verbatim>\<open>lt\<close>, and the range of rows 50
  to 74; a read without options sends the table and \<^verbatim>\<open>*\<close> alone.
\<close>

theorem select_forwards_parameters_witness:
  "gateway_calls (snd (select ok_gateway new_DatabaseService 0 0 ''invoices'' mixed_read)) =
     [[Call_from ''invoices'', Call_select (JStr ''*''),
       Call_eq ''status'' (JStr ''paid''),
       Call_gte ''amount'' (JNum 100), Call_lt ''amount'' (JNum 500),
       Call_in ''id'' (JArr [JNum 1, JNum 2]),
       Call_eq ''archived'' JNull,
       Call_order (JStr ''created_at'') False,
       Call_limit (JNum 25), Call_range (JNum 50) (JNum 74)]]
   \<and> gateway_calls (snd (select ok_gateway new_DatabaseService 0 0 ''invoices'' [])) =
     [[Call_from ''invoices'', Call_select (JStr ''*'')]]"
proof -
  have calls: "gateway_calls new_DatabaseService = []" by (simp add: new_DatabaseService_def)
  note inst = select_forwards_parameters [where s = new_DatabaseService and gw = ok_gateway
      and ?t1.0 = 0 and ?t2.0 = 0 and table = "''invoices''" and options = mixed_read
      and cols = None
      and fs = "Some [(''status'', JStr ''paid''),
               (''amount'', JObj [(''lt'', JNum 500), (''gte'', JNum 100)]),
               (''id'', JArr [JNum 1, JNum 2]),
               (''archived'', JNull)]"
      and order_by = "Some (Some ''created_at'', Some False)"
      and lim = "Some 25" and off = "Some 50"]
  have supplied: "opt_columns mixed_read = None"
    "opt_filters mixed_read = Some [(''status'', JStr ''paid''),
               (''amount'', JObj [(''lt'', JNum 500), (''gte'', JNum 100)]),
               (''id'', JArr [JNum 1, JNum 2]),
               (''archived'', JNull)]"
    "map_option (\<lambda>orderBy. (order_column orderBy, order_ascending orderBy)) (opt_orderBy mixed_read) =
       Some (Some ''created_at'', Some False)"
    "opt_limit mixed_read = Some 25" "opt_offset mixed_read = Some 50"
    by (simp_all add: mixed_read_def)
  from inst supplied new_service_misses
  have "gateway_calls (snd (select ok_gateway new_DatabaseService 0 0 ''invoices'' mixed_read)) =
     gateway_calls new_DatabaseService @
     [forwarded_query ''invoices'' None
        (Some [(''status'', JStr ''paid''),
               (''amount'', JObj [(''lt'', JNum 500), (''gte'', JNum 100)]),
               (''id'', JArr [JNum 1, JNum 2]),
               (''archived'', JNull)])
        (Some (Some ''created_at'', Some False)) (Some 25) (Some 50)]"
    by blast
  then have a: "gateway_calls (snd (select ok_gateway new_DatabaseService 0 0 ''invoices'' mixed_read)) =
     [[Call_from ''invoices'', Call_select (JStr ''*''),
       Call_eq ''status'' (JStr ''paid''),
       Call_gte ''amount'' (JNum 100), Call_lt ''amount'' (JNum 500),
       Call_in ''id'' (JArr [JNum 1, JNum 2]),
       Call_eq ''archived'' JNull,
       Call_order (JStr ''created_at'') False,
       Call_limit (JNum 25), Call_range (JNum 50) (JNum 74)]]"
    by (simp add: calls forwarded_query_def forwarded_filter_def forward_filter_def
        range_reading_def range_operators_def)
  note inst2 = select_forwards_parameters [where s = new_DatabaseService and gw = ok_gateway
      and ?t1.0 = 0 and ?t2.0 = 0 and table = "''invoices''" and options = "[]"
      and cols = None and fs = None and order_by = None and lim = None and off = None]
  from inst2 new_service_misses
  have b: "gateway_calls (snd (select ok_gateway new_DatabaseService 0 0 ''invoices'' [])) =
     [[Call_from ''invoices'', Call_select (JStr ''*'')]]"
    by (simp add: calls forwarded_query_def)
  from a b show ?thesis by blast
qed

section \<open>Facts and claims about the batch runner\<close>

text \<open>When a prefix of the operations completes, the loop goes on with the rest.\<close>

lemma batch_loop_append:
  "batch_loop gw clock i pre acc s = (Completed res, s1) \<Longrightarrow>
   batch_loop gw clock i (pre @ rest) acc s = batch_loop gw clock (i + length pre) rest res s1"
proof (induction pre arbitrary: i acc s)
  case Nil
  then show ?case by simp
next
  case (Cons op pre)
  then show ?case
    by (auto split: sum.splits prod.splits if_splits)
qed

text \<open>A loop that completes has added one result for each operation, after those it had.\<close>

lemma batch_loop_completed_length:
  "batch_loop gw clock i ops acc s = (Completed res, s1) \<Longrightarrow>
   length res = length acc + length ops \<and> take (length acc) res = acc"
proof (induction ops arbitrary: i acc s)
  case Nil
  then show ?case by simp
next
  case (Cons op ops)
  from Cons.prems obtain result s2 where
    run: "run_operation gw s (clock i) op = (Inr result, s2)"
    and rest: "batch_loop gw clock (Suc i) ops (acc @ [data result]) s2 = (Completed res, s1)"
    by (auto split: sum.splits prod.splits if_splits)
  from Cons.IH [OF rest]
  have len: "length res = length acc + 1 + length ops"
    and tk: "take (length acc + 1) res = acc @ [data result]"
    by simp_all
  have "take (length acc) res = take (length acc) (take (length acc + 1) res)"
    by (simp add: min_def)
  also have "\<dots> = acc" unfolding tk by simp
  finally show ?case using len by simp
qed

text \<open>
  What holds of \<^verbatim>\<open>batch\<close>: it stops at the first operation whose error is a non-empty
  string, returns that error without data, and the operations after it play no part;
  when the loop completes, it returns one result for each operation.
\<close>

lemma batch_stops_at_reported_error:
  assumes pre: "batch_loop gw clock 0 pre [] s = (Completed res, s1)"
    and op: "run_operation gw s1 (clock (length pre)) op = (Inr result, s2)"
    and err: "error_truthy (error result)"
  shows "batch gw clock s (pre @ op # post) =
           (\<lparr>data = JNull, error = error result, fromCache = False,
             cachedAt = None, expiresAt = None\<rparr>, s2)"
  using batch_loop_append [OF pre, of "op # post"] op err
  by (simp add: batch_def)

lemma batch_all_succeed:
  assumes "batch_loop gw clock 0 operations [] s = (Completed res, s1)"
  shows "fst (batch gw clock s operations) = success (JArr res)"
    and "length res = length operations"
  using assms batch_loop_completed_length [OF assms] by (simp_all add: batch_def)

text \<open>
  Claim C6 (batch stops at the first error) does not hold of the code: the loop tests
  \<^verbatim>\<open>if (result.error)\<close>, and the empty string is falsy. When the gateway answers the insert
  with an error object whose message is empty, \<^verbatim>\<open>insert\<close> returns the error \<^verbatim>\<open>''\<close>, yet
  \<^verbatim>\<open>batch\<close> goes on, sends the delete to the gateway and reports success with the data
  \<^verbatim>\<open>[null, null]\<close>.
\<close>

theorem batch_continues_after_empty_error:
  "error (fst (insert_rows empty_message_gateway new_DatabaseService ''invoices''
         (JObj [(''id'', JNum 1)]) [])) = Some []
   \<and> fst (batch empty_message_gateway (\<lambda>i. (0, 0)) new_DatabaseService insert_then_delete) =
       \<lparr>data = JArr [JNull, JNull], error = None, fromCache = False,
        cachedAt = None, expiresAt = None\<rparr>
   \<and> gateway_calls (snd (batch empty_message_gateway (\<lambda>i. (0, 0)) new_DatabaseService
        insert_then_delete)) =
       [[Call_from ''invoices'', Call_insert (JObj [(''id'', JNum 1)]), Call_select JUndefined],
        [Call_from ''customers'', Call_delete, Call_eq ''id'' (JNum 7)]]"
  by (simp add: batch_def insert_then_delete_def run_operation_def options_or_default_def
      insert_rows_def delete_def send_def empty_message_gateway_def failure_def success_def
      new_DatabaseService_def eq_filters_def invalidate_related_def)


section \<open>Facts about the key encoder\<close>

subsection \<open>Base64 and UTF-8 lose nothing\<close>

lemma base64_alphabet_length: "length base64_alphabet = 64"
  by (simp add: base64_alphabet_def)

lemma base64_alphabet_distinct: "distinct base64_alphabet"
  unfolding base64_alphabet_def by code_simp

lemma base64_alphabet_no_pad: "CHR ''='' \<notin> set base64_alphabet"
  by (simp add: base64_alphabet_def)

lemma base64_char_inj:
  "n < 64 \<Longrightarrow> m < 64 \<Longrightarrow> base64_char n = base64_char m \<Longrightarrow> n = m"
  using base64_alphabet_length base64_alphabet_distinct by (simp add: base64_char_def nth_eq_iff_index_eq)

lemma base64_char_eq:
  "n < 64 \<Longrightarrow> m < 64 \<Longrightarrow> (base64_char n = base64_char m) = (n = m)"
  using base64_char_inj by blast

lemma base64_char_not_pad: "n < 64 \<Longrightarrow> base64_char n \<noteq> CHR ''=''"
proof
  assume "n < 64" and "base64_char n = CHR ''=''"
  then have "CHR ''='' \<in> set base64_alphabet"
    using nth_mem [of n base64_alphabet] by (simp add: base64_char_def base64_alphabet_length)
  with base64_alphabet_no_pad show False by simp
qed

lemma sextets_bound:
  fixes a b c :: nat
  shows "a < 256 \<Longrightarrow> a div 4 < 64"
    and "b < 256 \<Longrightarrow> (a mod 4) * 16 + b div 16 < 64"
    and "c < 256 \<Longrightarrow> (b mod 16) * 4 + c div 64 < 64"
    and "c mod 64 < 64" and "(a mod 4) * 16 < 64" and "(b mod 16) * 4 < 64"
  by auto

lemma digits_eq:
  fixes x y x' y' n :: nat
  assumes "y < n" "y' < n" "x * n + y = x' * n + y'"
  shows "x = x' \<and> y = y'"
proof -
  have "(x * n + y) div n = x" "(x' * n + y') div n = x'"
    using assms(1,2) by simp_all
  with assms(3) have "x = x'" by simp
  with assms(3) show ?thesis by simp
qed

lemma div_mod_eq:
  fixes a a' :: nat
  shows "a div n = a' div n \<Longrightarrow> a mod n = a' mod n \<Longrightarrow> a = a'"
  by (metis div_mult_mod_eq)

lemma sextets_inj2:
  fixes a b a' b' :: nat
  assumes "a div 4 = a' div 4" "(a mod 4) * 16 + b div 16 = (a' mod 4) * 16 + b' div 16"
    and "b < 256" "b' < 256"
  shows "a = a' \<and> b div 16 = b' div 16"
proof -
  have "b div 16 < 16" "b' div 16 < 16" using assms(3,4) by auto
  from digits_eq [OF this assms(2)] have "a mod 4 = a' mod 4" "b div 16 = b' div 16" by simp_all
  with assms(1) div_mod_eq [of a 4 a'] show ?thesis by blast
qed

lemma sextets_inj3:
  fixes b c b' c' :: nat
  assumes "b div 16 = b' div 16" "(b mod 16) * 4 + c div 64 = (b' mod 16) * 4 + c' div 64"
    and "c mod 64 = c' mod 64" "c < 256" "c' < 256"
  shows "b = b' \<and> c = c'"
proof -
  have "c div 64 < 4" "c' div 64 < 4" using assms(4,5) by auto
  from digits_eq [OF this assms(2)] have "b mod 16 = b' mod 16" "c div 64 = c' div 64" by simp_all
  with assms(1,3) div_mod_eq [of b 16 b'] div_mod_eq [of c 64 c'] show ?thesis by blast
qed

lemma pad_neq [simp]:
  "n < 64 \<Longrightarrow> (CHR ''='' = base64_char n) = False"
  "n < 64 \<Longrightarrow> (base64_char n = CHR ''='') = False"
  using base64_char_not_pad [of n] by auto

lemma base64_Nil [simp]: "(base64 xs = []) = (xs = [])" "([] = base64 xs) = (xs = [])"
  by (cases xs rule: base64.cases; simp)+

lemma base64_one:
  assumes "a < 256" "\<forall>b \<in> set ys. b < 256" "base64 [a] = base64 ys"
  shows "ys = [a]"
proof (cases ys rule: base64.cases)
  case 1
  with assms show ?thesis by simp
next
  case (2 a')
  with assms have "a div 4 = a' div 4" "(a mod 4) * 16 = (a' mod 4) * 16"
    by (simp_all add: base64_char_eq sextets_bound)
  then have "a = a'" using div_mod_eq [of a 4 a'] by simp
  with 2 show ?thesis by simp
next
  case (3 a' b')
  have "(b' mod 16) * 4 < 64" by auto
  with assms 3 show ?thesis by simp
next
  case (4 a' b' c' rest)
  have "c' mod 64 < 64" by auto
  with assms 4 show ?thesis by simp
qed

lemma base64_two:
  assumes "a < 256" "b < 256" "\<forall>b \<in> set ys. b < 256" "base64 [a, b] = base64 ys"
  shows "ys = [a, b]"
proof (cases ys rule: base64.cases)
  case 1
  with assms show ?thesis by simp
next
  case (2 a')
  have "(b mod 16) * 4 < 64" by auto
  with assms 2 show ?thesis by simp
next
  case (3 a' b')
  from assms 3 have lt: "b < 256" "b' < 256" by simp_all
  from assms 3 have e: "a div 4 = a' div 4"
      "(a mod 4) * 16 + b div 16 = (a' mod 4) * 16 + b' div 16"
      "(b mod 16) * 4 = (b' mod 16) * 4"
    by (simp_all add: base64_char_eq sextets_bound)
  from sextets_inj2 [OF e(1,2) lt] have ab: "a = a'" "b div 16 = b' div 16" by simp_all
  from ab(2) e(3) have "b = b'" using div_mod_eq [of b 16 b'] by simp
  with ab(1) 3 show ?thesis by simp
next
  case (4 a' b' c' rest)
  have "c' mod 64 < 64" by auto
  with assms 4 show ?thesis by simp
qed

lemma base64_three:
  assumes "a < 256" "b < 256" "c < 256" "\<forall>b \<in> set ys. b < 256"
    and "base64 (a # b # c # rest) = base64 ys"
  shows "\<exists>rest'. ys = a # b # c # rest' \<and> base64 rest = base64 rest'"
proof (cases ys rule: base64.cases)
  case 1
  with assms show ?thesis by simp
next
  case (2 a')
  have "c mod 64 < 64" by auto
  with assms 2 show ?thesis by simp
next
  case (3 a' b')
  have "c mod 64 < 64" by auto
  with assms 3 show ?thesis by simp
next
  case (4 a' b' c' rest')
  from assms 4 have lt: "b < 256" "b' < 256" "c < 256" "c' < 256" by simp_all
  from assms 4 have e: "a div 4 = a' div 4"
      "(a mod 4) * 16 + b div 16 = (a' mod 4) * 16 + b' div 16"
      "(b mod 16) * 4 + c div 64 = (b' mod 16) * 4 + c' div 64"
      "c mod 64 = c' mod 64"
    and rest: "base64 rest = base64 rest'"
    by (simp_all add: base64_char_eq sextets_bound)
  from sextets_inj2 [OF e(1,2) lt(1,2)] have ab: "a = a'" "b div 16 = b' div 16" by simp_all
  from sextets_inj3 [OF ab(2) e(3,4) lt(3,4)] have bc: "b = b'" "c = c'" by simp_all
  from ab bc 4 rest show ?thesis by simp
qed

lemma base64_inj:
  "\<forall>b \<in> set xs. b < 256 \<Longrightarrow> \<forall>b \<in> set ys. b < 256 \<Longrightarrow> base64 xs = base64 ys \<Longrightarrow> xs = ys"
proof (induction xs arbitrary: ys rule: base64.induct)
  case 1
  then show ?case by simp
next
  case (2 a)
  then show ?case using base64_one [of a ys] by simp
next
  case (3 a b)
  then show ?case using base64_two [of a b ys] by simp
next
  case (4 a b c rest)
  from "4.prems" base64_three [of a b c ys rest]
  obtain rest' where ys: "ys = a # b # c # rest'" and r: "base64 rest = base64 rest'"
    by auto
  from "4.prems" ys have "rest = rest'"
    by (intro "4.IH" r) simp_all
  with ys show ?case by simp
qed

lemma div_mod_eq_iff:
  fixes a a' :: nat
  shows "a div n = a' div n \<and> a mod n = a' mod n \<longleftrightarrow> a = a'"
  using div_mod_eq by blast

lemma utf8_bytes_Nil: "utf8_bytes [] = []"
  by (simp add: utf8_bytes_def)

lemma utf8_bytes_Cons:
  "utf8_bytes (c # s) =
     (if (of_char c :: nat) < 128 then [of_char c]
      else [192 + of_char c div 64, 128 + of_char c mod 64]) @ utf8_bytes s"
  by (simp add: utf8_bytes_def)

lemma of_char_bound: "(of_char c :: nat) < 256"
  by (cases c) (simp add: )

lemma of_char_div_64: "(of_char c :: nat) div 64 < 4"
  using of_char_bound [of c] less_mult_imp_div_less [of "of_char c" 4 64] by simp

lemma utf8_bytes_bound: "\<forall>b \<in> set (utf8_bytes s). b < 256"
proof (induction s)
  case Nil
  then show ?case by (simp add: utf8_bytes_Nil)
next
  case (Cons c s)
  have "(of_char c :: nat) div 64 < 4" by (rule of_char_div_64)
  moreover have "(of_char c :: nat) mod 64 < 64" by simp
  ultimately show ?case using Cons of_char_bound [of c]
    by (auto simp: utf8_bytes_Cons)
qed

lemma utf8_bytes_inj: "utf8_bytes s = utf8_bytes t \<Longrightarrow> s = t"
proof (induction s arbitrary: t)
  case Nil
  then show ?case by (cases t) (auto simp: utf8_bytes_Nil utf8_bytes_Cons split: if_splits)
next
  case (Cons c s)
  show ?case
  proof (cases t)
    case Nil
    with Cons.prems show ?thesis by (auto simp: utf8_bytes_Nil utf8_bytes_Cons split: if_splits)
  next
    case (Cons c' t')
    let ?n = "of_char c :: nat" and ?n' = "of_char c' :: nat"
    from Cons.prems Cons
    have eq: "(if ?n < 128 then [?n] else [192 + ?n div 64, 128 + ?n mod 64]) @ utf8_bytes s =
              (if ?n' < 128 then [?n'] else [192 + ?n' div 64, 128 + ?n' mod 64]) @ utf8_bytes t'"
      by (simp add: utf8_bytes_Cons)
    have d: "?n div 64 < 4" "?n' div 64 < 4"
      by (rule of_char_div_64)+
    have "?n = ?n' \<and> utf8_bytes s = utf8_bytes t'"
    proof (cases "?n < 128"; cases "?n' < 128")
      assume "?n < 128" "?n' < 128"
      with eq show ?thesis by simp
    next
      assume "?n < 128" "\<not> ?n' < 128"
      with eq have "?n = 192 + ?n' div 64" by simp
      with \<open>?n < 128\<close> show ?thesis by simp
    next
      assume "\<not> ?n < 128" "?n' < 128"
      with eq have "?n' = 192 + ?n div 64" by simp
      with \<open>?n' < 128\<close> show ?thesis by simp
    next
      assume "\<not> ?n < 128" "\<not> ?n' < 128"
      with eq have "?n div 64 = ?n' div 64" "?n mod 64 = ?n' mod 64"
        and r: "utf8_bytes s = utf8_bytes t'"
        by simp_all
      then have "?n = ?n'" using div_mod_eq [of ?n 64 ?n'] by simp
      with r show ?thesis by simp
    qed
    then have "c = c'" and "utf8_bytes s = utf8_bytes t'" by simp_all
    with Cons.IH [of t'] Cons show ?thesis by simp
  qed
qed

lemma key_encoding_inj: "base64 (utf8_bytes s) = base64 (utf8_bytes t) \<longleftrightarrow> s = t"
  using base64_inj [OF utf8_bytes_bound utf8_bytes_bound] utf8_bytes_inj by blast


section \<open>Claims about the key encoder\<close>

text \<open>
  Claim C1 as stated fails: the key depends on the order of the fields of the parameter
  bag. The names \<^verbatim>\<open>status\<close> and \<^verbatim>\<open>limit\<close> are no array indices, so the bag
  \<^verbatim>\<open>{ status: 'paid', limit: 10 }\<close> enumerates its fields in the order in which the caller
  wrote them, and so does \<^verbatim>\<open>{ limit: 10, status: 'paid' }\<close>. The two get the keys of the
  texts \<^verbatim>\<open>invoices:select:{"status":"paid","limit":10}\<close> and
  \<^verbatim>\<open>invoices:select:{"limit":10,"status":"paid"}\<close>, which differ.
\<close>

theorem cache_key_order_counterexample:
  "generateCacheKey ''invoices'' OpSelect (JObj [(''status'', JStr ''paid''), (''limit'', JNum 10)]) =
     ''aW52b2ljZXM6c2VsZWN0Onsic3RhdHVzIjoicGFpZCIsImxpbWl0IjoxMH0=''
   \<and> generateCacheKey ''invoices'' OpSelect (JObj [(''limit'', JNum 10), (''status'', JStr ''paid'')]) =
     ''aW52b2ljZXM6c2VsZWN0OnsibGltaXQiOjEwLCJzdGF0dXMiOiJwYWlkIn0=''
   \<and> generateCacheKey ''invoices'' OpSelect (JObj [(''status'', JStr ''paid''), (''limit'', JNum 10)]) \<noteq>
     generateCacheKey ''invoices'' OpSelect (JObj [(''limit'', JNum 10), (''status'', JStr ''paid'')])"
  by code_simp

text \<open>
  Claim C1, amended. The key is a lossless encoding of the text
  \<^verbatim>\<open>table:operation:JSON.stringify(params)\<close>: two calls get the same key exactly when they
  build the same text, and for one table and operation exactly when the parameters
  serialise to the same string. Equal inputs therefore always get the same key. The
  serialisation writes the fields of a bag in its enumeration order, so two bags with
  the same fields get the same key when they enumerate them alike, and can get
  different keys when they do not.
\<close>

theorem cache_key_determined_by_text:
  "(generateCacheKey table operation params = generateCacheKey table' operation' params') =
     (key_text table operation params = key_text table' operation' params')
   \<and> (generateCacheKey table operation params = generateCacheKey table operation params') =
     (JSON_stringify params = JSON_stringify params')"
proof -
  have key: "(generateCacheKey t op p = generateCacheKey t' op' p') =
      (key_text t op p = key_text t' op' p')" for t op p t' op' p'
    by (simp add: generateCacheKey_def key_encoding_inj)
  have same: "(key_text t op p = key_text t op p') = (JSON_stringify p = JSON_stringify p')"
    for t op p p'
    by (simp add: key_text_def)
  show ?thesis
    by (simp add: key same)
qed

text \<open>
  Witness for C1: the bag \<^verbatim>\<open>{ id: 1, name: 'a' }\<close> and the bag with the same fields that
  enumerates \<^verbatim>\<open>name\<close> first serialise to different strings, and get different keys; the
  bag \<^verbatim>\<open>{ id: 1, note: undefined }\<close> serialises as \<^verbatim>\<open>{ id: 1 }\<close> does, and gets its key.
\<close>

theorem cache_key_determined_by_text_witness:
  "JSON_stringify (JObj [(''id'', JNum 1), (''name'', JStr ''a'')]) = ''{\"id\":1,\"name\":\"a\"}''
   \<and> JSON_stringify (JObj [(''name'', JStr ''a''), (''id'', JNum 1)]) = ''{\"name\":\"a\",\"id\":1}''
   \<and> generateCacheKey ''customers'' OpSelect (JObj [(''id'', JNum 1), (''name'', JStr ''a'')]) \<noteq>
     generateCacheKey ''customers'' OpSelect (JObj [(''name'', JStr ''a''), (''id'', JNum 1)])
   \<and> generateCacheKey ''customers'' OpSelect (JObj [(''id'', JNum 1), (''note'', JUndefined)]) =
     generateCacheKey ''customers'' OpSelect (JObj [(''id'', JNum 1)])"
proof -
  have s1: "JSON_stringify (JObj [(''id'', JNum 1), (''name'', JStr ''a'')]) = ''{\"id\":1,\"name\":\"a\"}''"
    and s2: "JSON_stringify (JObj [(''name'', JStr ''a''), (''id'', JNum 1)]) = ''{\"name\":\"a\",\"id\":1}''"
    and s3: "JSON_stringify (JObj [(''id'', JNum 1), (''note'', JUndefined)]) =
             JSON_stringify (JObj [(''id'', JNum 1)])"
    by code_simp+
  from cache_key_determined_by_text [where table = "''customers''" and operation = OpSelect
      and params = "JObj [(''id'', JNum 1), (''name'', JStr ''a'')]"
      and params' = "JObj [(''name'', JStr ''a''), (''id'', JNum 1)]", THEN conjunct2] s1 s2
  have a: "generateCacheKey ''customers'' OpSelect (JObj [(''id'', JNum 1), (''name'', JStr ''a'')]) \<noteq>
     generateCacheKey ''customers'' OpSelect (JObj [(''name'', JStr ''a''), (''id'', JNum 1)])"
    by simp
  from cache_key_determined_by_text [where table = "''customers''" and operation = OpSelect
      and params = "JObj [(''id'', JNum 1), (''note'', JUndefined)]"
      and params' = "JObj [(''id'', JNum 1)]", THEN conjunct2] s3
  have b: "generateCacheKey ''customers'' OpSelect (JObj [(''id'', JNum 1), (''note'', JUndefined)]) =
     generateCacheKey ''customers'' OpSelect (JObj [(''id'', JNum 1)])"
    by simp
  from s1 s2 a b show ?thesis by blast
qed

end
